theory Spec2Isabelle
  imports Complex_Main
begin

section \<open>Brush catalog and brush session (BlekkProPMUBrushes.js)\<close>

text \<open>
  In the brush module JavaScript numbers are modelled as real numbers; the single place
  of that module where a finite computation leaves the reals (the quotient 0/0 of the
  tapered brush) is modelled explicitly further down.  The symmetry score is modelled
  over numbers with infinities and NaN.  Objects are records, string-keyed object
  literals are maps over their own keys, and a property that may be absent is an option.
\<close>

record brush =
  name_of :: string
  type_of :: string
  size_of :: real
  opacity_of :: real
  spacing_of :: real
  scatter_of :: real
  pressureSensitivity_of :: real
  subscription_of :: string

text \<open>The selected brush is a copy of a preset extended by \<open>id\<close> and \<open>category\<close>.\<close>

record selected = brush +
  id_of :: string
  category_of :: string

definition basic :: "string \<rightharpoonup> brush" where
  "basic = [
     ''standardLiner'' \<mapsto> \<lparr>name_of = ''Standard Liner'', type_of = ''liner'', size_of = 1,
        opacity_of = 0.9, spacing_of = 0.1, scatter_of = 0, pressureSensitivity_of = 0.7,
        subscription_of = ''free''\<rparr>,
     ''standardShader'' \<mapsto> \<lparr>name_of = ''Standard Shader'', type_of = ''shader'', size_of = 3,
        opacity_of = 0.8, spacing_of = 0.15, scatter_of = 0.1, pressureSensitivity_of = 0.8,
        subscription_of = ''free''\<rparr>,
     ''powderBrow'' \<mapsto> \<lparr>name_of = ''Powder Brow'', type_of = ''shader'', size_of = 5,
        opacity_of = 0.6, spacing_of = 0.2, scatter_of = 0.3, pressureSensitivity_of = 0.5,
        subscription_of = ''free''\<rparr>]"

definition advanced :: "string \<rightharpoonup> brush" where
  "advanced = [
     ''shader3RS'' \<mapsto> \<lparr>name_of = ''3RS Shader'', type_of = ''specialized'', size_of = 3,
        opacity_of = 0.85, spacing_of = 0.12, scatter_of = 0.08, pressureSensitivity_of = 0.9,
        subscription_of = ''pro''\<rparr>,
     ''ombreLipOutline'' \<mapsto> \<lparr>name_of = ''Ombre Lip Outline'', type_of = ''specialized'', size_of = 2,
        opacity_of = 0.9, spacing_of = 0.05, scatter_of = 0.02, pressureSensitivity_of = 0.8,
        subscription_of = ''pro''\<rparr>,
     ''microbladeNatural'' \<mapsto> \<lparr>name_of = ''Microblade Natural'', type_of = ''specialized'',
        size_of = 1, opacity_of = 0.95, spacing_of = 0.02, scatter_of = 0.01, pressureSensitivity_of = 0.9,
        subscription_of = ''pro''\<rparr>]"

definition brushPresets :: "string \<rightharpoonup> (string \<rightharpoonup> brush)" where
  "brushPresets = [''basic'' \<mapsto> basic, ''advanced'' \<mapsto> advanced]"

record pmu =
  currentBrush :: "selected option"
  userSubscription :: string

definition constructor :: pmu where
  "constructor = \<lparr>currentBrush = None, userSubscription = ''free''\<rparr>"

definition setUserSubscription :: "string \<Rightarrow> pmu \<Rightarrow> bool \<times> pmu" where
  "setUserSubscription level s =
     (if level \<noteq> ''free'' \<and> level \<noteq> ''pro'' then (False, s)
      else (True, s\<lparr>userSubscription := level\<rparr>))"

record prompt =
  title :: string
  message :: string
  benefits :: "string list"

definition prompts :: "string \<rightharpoonup> prompt" where
  "prompts = [
     ''shader3RS'' \<mapsto> \<lparr>title = ''Unlock 3RS Shader Brush'',
        message = ''Upgrade to BlekkPro Pro to access professional 3RS shader brushes for perfect brow shading.'',
        benefits = [''Realistic 3-needle round shader simulation'',
          ''Precise pigment distribution control'', ''Professional-grade results'']\<rparr>,
     ''ombreLipOutline'' \<mapsto> \<lparr>title = ''Unlock Ombre Lip Outline Tool'',
        message = ''Upgrade to BlekkPro Pro to access specialized ombre lip outline tools for perfect lip treatments.'',
        benefits = [''Specialized lip outline brushes'', ''Gradient and feathering controls'',
          ''Realistic lip blush simulation'']\<rparr>,
     ''microbladeNatural'' \<mapsto> \<lparr>title = ''Unlock Natural Microblade Tool'',
        message = ''Upgrade to BlekkPro Pro to access natural microblade tools for realistic hair strokes.'',
        benefits = [''Realistic hair stroke simulation'', ''Natural-looking results'',
          ''Advanced pressure sensitivity'']\<rparr>,
     ''export_high_res'' \<mapsto> \<lparr>title = ''Unlock High-Resolution Export'',
        message = ''Upgrade to BlekkPro Pro to export your designs in high resolution.'',
        benefits = [''Professional-quality exports'', ''Print-ready resolution'',
          ''Lossless image quality'']\<rparr>]"

definition default_prompt :: prompt where
  "default_prompt = \<lparr>title = ''Unlock Pro Features'',
     message = ''Upgrade to BlekkPro Pro to access all professional features.'',
     benefits = [''All specialized PMU brushes'', ''Advanced customization options'',
       ''High-resolution exports'', ''Priority support'']\<rparr>"

text \<open>
  \<open>prompts[featureId] || prompts.default\<close>: the table also holds the key \<open>default\<close>,
  so looking that key up gives the same entry as the fallback does.
\<close>

definition getUpgradePrompt :: "string \<Rightarrow> prompt" where
  "getUpgradePrompt featureId =
     (case prompts featureId of Some p \<Rightarrow> p | None \<Rightarrow> default_prompt)"

text \<open>
  The object returned by \<open>selectBrush\<close>: \<open>success\<close> is always present, the other
  properties only on the paths that write them.
\<close>

record select_result =
  success :: bool
  reason :: "string option"
  msg :: "string option"
  upgradePrompt :: "prompt option"
  granted :: "selected option"

definition selectBrush :: "string \<Rightarrow> string \<Rightarrow> pmu \<Rightarrow> select_result \<times> pmu" where
  "selectBrush cat brushId s =
     (case brushPresets cat of
        None \<Rightarrow>
          (\<lparr>success = False, reason = Some ''invalid_category'',
            msg = Some (''Invalid brush category: '' @ cat),
            upgradePrompt = None, granted = None\<rparr>, s)
      | Some presets \<Rightarrow>
          (case presets brushId of
             None \<Rightarrow>
               (\<lparr>success = False, reason = Some ''invalid_brush'',
                 msg = Some (''Invalid brush: '' @ brushId),
                 upgradePrompt = None, granted = None\<rparr>, s)
           | Some b \<Rightarrow>
               if subscription_of b = ''pro'' \<and> userSubscription s \<noteq> ''pro'' then
                 (\<lparr>success = False, reason = Some ''subscription_required'',
                   msg = Some ''This brush requires a Pro subscription'',
                   upgradePrompt = Some (getUpgradePrompt brushId), granted = None\<rparr>, s)
               else
                 let cur = brush.extend b \<lparr>id_of = brushId, category_of = cat\<rparr>
                 in (\<lparr>success = True, reason = None, msg = None, upgradePrompt = None,
                      granted = Some cur\<rparr>, s\<lparr>currentBrush := Some cur\<rparr>)))"

section \<open>The drawing surface\<close>

text \<open>
  The renderer never reads the surface: it only assigns properties and calls methods.
  Its whole effect is therefore the sequence of these operations, in program order.
\<close>

text \<open>
  A colour string \<open>rgba(r, g, b, a)\<close>, kept as its four components; a component of the
  colour array that is absent is \<open>None\<close> (it prints as \<open>undefined\<close>).
\<close>

datatype style = Rgba "real option" "real option" "real option" real

text \<open>A number that may be NaN (only the tapered brush can produce one).\<close>

datatype jsnum = Num real | NaN

datatype call =
    Save
  | Restore
  | SetGlobalCompositeOperation string
  | SetStrokeStyle style
  | SetFillStyle style
  | SetLineWidth jsnum
  | SetLineCap string
  | SetLineJoin string
  | SetGlobalAlpha real
  | BeginPath
  | MoveTo real real
  | LineTo real real
  | Arc real real real real real
  | Stroke
  | Fill

text \<open>
  Modelled from the spec: the drawing surface is an external collaborator (the browser's
  2D canvas context), described in the spec as an immediate-mode target with settable
  width, colour and alpha, line cap and join, dash pattern, filled and stroked paths, and
  save/restore of this transient state.  Every operation is total here.
\<close>

record dstate =
  globalCompositeOperation :: string
  globalAlpha :: real
  lineDash :: "real list"
  strokeStyle :: style
  fillStyle :: style
  lineWidth :: jsnum
  lineCap :: string
  lineJoin :: string

datatype mark = Stroked "call list" dstate | Filled "call list" dstate

record surface =
  state :: dstate
  saved :: "dstate list"
  path :: "call list"
  painted :: "mark list"

fun exec :: "call \<Rightarrow> surface \<Rightarrow> surface" where
  "exec Save c = c\<lparr>saved := state c # saved c\<rparr>"
| "exec Restore c = (case saved c of [] \<Rightarrow> c | d # ds \<Rightarrow> c\<lparr>state := d, saved := ds\<rparr>)"
| "exec (SetGlobalCompositeOperation v) c = c\<lparr>state := (state c)\<lparr>globalCompositeOperation := v\<rparr>\<rparr>"
| "exec (SetStrokeStyle v) c = c\<lparr>state := (state c)\<lparr>strokeStyle := v\<rparr>\<rparr>"
| "exec (SetFillStyle v) c = c\<lparr>state := (state c)\<lparr>fillStyle := v\<rparr>\<rparr>"
| "exec (SetLineWidth v) c = c\<lparr>state := (state c)\<lparr>lineWidth := v\<rparr>\<rparr>"
| "exec (SetLineCap v) c = c\<lparr>state := (state c)\<lparr>lineCap := v\<rparr>\<rparr>"
| "exec (SetLineJoin v) c = c\<lparr>state := (state c)\<lparr>lineJoin := v\<rparr>\<rparr>"
| "exec (SetGlobalAlpha v) c = c\<lparr>state := (state c)\<lparr>globalAlpha := v\<rparr>\<rparr>"
| "exec BeginPath c = c\<lparr>path := []\<rparr>"
| "exec (MoveTo a b) c = c\<lparr>path := path c @ [MoveTo a b]\<rparr>"
| "exec (LineTo a b) c = c\<lparr>path := path c @ [LineTo a b]\<rparr>"
| "exec (Arc a b r s e) c = c\<lparr>path := path c @ [Arc a b r s e]\<rparr>"
| "exec Stroke c = c\<lparr>painted := painted c @ [Stroked (path c) (state c)]\<rparr>"
| "exec Fill c = c\<lparr>painted := painted c @ [Filled (path c) (state c)]\<rparr>"

definition run :: "call list \<Rightarrow> surface \<Rightarrow> surface" where
  "run cs c = fold exec cs c"

section \<open>The stroke renderer\<close>

record point =
  x_of :: real
  y_of :: real
  pressure_of :: "real option"

text \<open>\<open>point.pressure || 1\<close>: an absent pressure and the pressure 0 are both falsy.\<close>

definition pressureOr1 :: "point \<Rightarrow> real" where
  "pressureOr1 point =
     (case pressure_of point of None \<Rightarrow> 1 | Some p \<Rightarrow> if p = 0 then 1 else p)"

text \<open>
  The ambient \<open>Math.random()\<close> is the sequence \<open>rnd\<close>: \<open>rnd k\<close> is the value
  of the call number \<open>k\<close> (from 0) made during one render.
\<close>

type_synonym rng = "nat \<Rightarrow> real"

definition drawDot :: "real \<Rightarrow> real \<Rightarrow> real \<Rightarrow> style \<Rightarrow> real \<Rightarrow> call list" where
  "drawDot x y size' color alpha =
     [BeginPath, SetGlobalAlpha alpha, SetFillStyle color, Arc x y (size' / 2) 0 (pi * 2), Fill]"

text \<open>The argument \<open>r\<close> is the value of the one \<open>Math.random()\<close> call for the angle.\<close>

definition drawTripleDot :: "real \<Rightarrow> real \<Rightarrow> real \<Rightarrow> real \<Rightarrow> style \<Rightarrow> real \<Rightarrow> call list" where
  "drawTripleDot r x y size' color alpha =
     (let offset = size' * 0.6;
          angle = r * pi * 2;
          x1 = x + cos angle * offset;
          y1 = y + sin angle * offset;
          x2 = x + cos (angle + pi * 2 / 3) * offset;
          y2 = y + sin (angle + pi * 2 / 3) * offset
      in drawDot x y size' color alpha
         @ drawDot x1 y1 (size' * 0.8) color (alpha * 0.9)
         @ drawDot x2 y2 (size' * 0.8) color (alpha * 0.9))"

text \<open>
  The private brush functions are only reached through \<open>applyBrushStroke\<close>, which
  rejects an empty stroke first; their equation for the empty stroke is never used.
\<close>

definition applyLinerBrush ::
  "point list \<Rightarrow> style \<Rightarrow> real \<Rightarrow> real \<Rightarrow> real \<Rightarrow> real \<Rightarrow> real \<Rightarrow> call list" where
  "applyLinerBrush points colorStr size' opacity spacing scatter pressureSensitivity =
     (case points of [] \<Rightarrow> []
      | p0 # rest \<Rightarrow>
          [BeginPath, SetStrokeStyle colorStr, SetLineWidth (Num size'), SetLineCap ''round'',
           SetLineJoin ''round'', SetGlobalAlpha opacity, MoveTo (x_of p0) (y_of p0)]
          @ concat (map (\<lambda>point.
              let pressure = pressureOr1 point;
                  adjustedSize = size' * (1 + (pressure - 0.5) * pressureSensitivity)
              in [SetLineWidth (Num adjustedSize), LineTo (x_of point) (y_of point)]) rest)
          @ [Stroke])"

text \<open>
  The loop variables of the two stamping brushes: the last stamped position, the number
  of \<open>Math.random()\<close> calls made so far, and the surface operations issued so far.
\<close>

record stamping =
  lastX :: real
  lastY :: real
  rpos :: nat
  out :: "call list"

definition shaderStep ::
  "rng \<Rightarrow> style \<Rightarrow> real \<Rightarrow> real \<Rightarrow> real \<Rightarrow> real \<Rightarrow> real \<Rightarrow> stamping \<Rightarrow> point \<Rightarrow> stamping" where
  "shaderStep rnd colorStr size' opacity spacing scatter pressureSensitivity st point =
     (let minDistance = size' * spacing;
          pressure = pressureOr1 point;
          dx = x_of point - lastX st;
          dy = y_of point - lastY st;
          distance = sqrt (dx * dx + dy * dy)
      in if distance \<ge> minDistance then
           let adjustedSize = size' * (1 + (pressure - 0.5) * pressureSensitivity);
               scatterX = (rnd (rpos st) - 0.5) * scatter * size' * 2;
               scatterY = (rnd (rpos st + 1) - 0.5) * scatter * size' * 2
           in \<lparr>lastX = x_of point, lastY = y_of point, rpos = rpos st + 2,
               out = out st @ drawDot (x_of point + scatterX) (y_of point + scatterY)
                                adjustedSize colorStr (opacity * pressure)\<rparr>
         else st)"

definition shaderInit :: "style \<Rightarrow> real \<Rightarrow> real \<Rightarrow> point \<Rightarrow> stamping" where
  "shaderInit colorStr size' opacity p0 =
     \<lparr>lastX = x_of p0, lastY = y_of p0, rpos = 0,
      out = drawDot (x_of p0) (y_of p0) size' colorStr opacity\<rparr>"

text \<open>The loop variables after the initial dot and the iterations over \<open>rest\<close>.\<close>

definition shaderLoop ::
  "rng \<Rightarrow> style \<Rightarrow> real \<Rightarrow> real \<Rightarrow> real \<Rightarrow> real \<Rightarrow> real \<Rightarrow> point \<Rightarrow> point list \<Rightarrow> stamping" where
  "shaderLoop rnd colorStr size' opacity spacing scatter pressureSensitivity p0 rest =
     foldl (shaderStep rnd colorStr size' opacity spacing scatter pressureSensitivity)
       (shaderInit colorStr size' opacity p0) rest"

definition applyShaderBrush ::
  "rng \<Rightarrow> point list \<Rightarrow> style \<Rightarrow> real \<Rightarrow> real \<Rightarrow> real \<Rightarrow> real \<Rightarrow> real \<Rightarrow> call list" where
  "applyShaderBrush rnd points colorStr size' opacity spacing scatter pressureSensitivity =
     (case points of [] \<Rightarrow> []
      | p0 # rest \<Rightarrow>
          out (shaderLoop rnd colorStr size' opacity spacing scatter pressureSensitivity p0 rest))"

definition tripleStep ::
  "rng \<Rightarrow> style \<Rightarrow> real \<Rightarrow> real \<Rightarrow> real \<Rightarrow> real \<Rightarrow> real \<Rightarrow> stamping \<Rightarrow> point \<Rightarrow> stamping" where
  "tripleStep rnd colorStr size' opacity spacing scatter pressureSensitivity st point =
     (let minDistance = size' * spacing;
          pressure = pressureOr1 point;
          dx = x_of point - lastX st;
          dy = y_of point - lastY st;
          distance = sqrt (dx * dx + dy * dy)
      in if distance \<ge> minDistance then
           let adjustedSize = size' * (1 + (pressure - 0.5) * pressureSensitivity);
               scatterX = (rnd (rpos st) - 0.5) * scatter * size';
               scatterY = (rnd (rpos st + 1) - 0.5) * scatter * size'
           in \<lparr>lastX = x_of point, lastY = y_of point, rpos = rpos st + 3,
               out = out st @ drawTripleDot (rnd (rpos st + 2))
                                (x_of point + scatterX) (y_of point + scatterY)
                                adjustedSize colorStr (opacity * pressure)\<rparr>
         else st)"

definition tripleInit :: "rng \<Rightarrow> style \<Rightarrow> real \<Rightarrow> real \<Rightarrow> point \<Rightarrow> stamping" where
  "tripleInit rnd colorStr size' opacity p0 =
     \<lparr>lastX = x_of p0, lastY = y_of p0, rpos = 1,
      out = drawTripleDot (rnd 0) (x_of p0) (y_of p0) size' colorStr opacity\<rparr>"

definition tripleLoop ::
  "rng \<Rightarrow> style \<Rightarrow> real \<Rightarrow> real \<Rightarrow> real \<Rightarrow> real \<Rightarrow> real \<Rightarrow> point \<Rightarrow> point list \<Rightarrow> stamping" where
  "tripleLoop rnd colorStr size' opacity spacing scatter pressureSensitivity p0 rest =
     foldl (tripleStep rnd colorStr size' opacity spacing scatter pressureSensitivity)
       (tripleInit rnd colorStr size' opacity p0) rest"

definition apply3RSShader ::
  "rng \<Rightarrow> point list \<Rightarrow> style \<Rightarrow> real \<Rightarrow> real \<Rightarrow> real \<Rightarrow> real \<Rightarrow> real \<Rightarrow> call list" where
  "apply3RSShader rnd points colorStr size' opacity spacing scatter pressureSensitivity =
     (case points of [] \<Rightarrow> []
      | p0 # rest \<Rightarrow>
          out (tripleLoop rnd colorStr size' opacity spacing scatter pressureSensitivity p0 rest))"

text \<open>
  \<open>colorStr.replace('rgba(', '').replace(')', '').split(',')\<close> recovers the three
  colour components, from which the per-segment stroke style is rebuilt.
\<close>

definition withAlpha :: "style \<Rightarrow> real \<Rightarrow> style" where
  "withAlpha colorStr a = (case colorStr of Rgba r g b _ \<Rightarrow> Rgba r g b a)"

definition ombreSegment ::
  "point list \<Rightarrow> style \<Rightarrow> real \<Rightarrow> real \<Rightarrow> real \<Rightarrow> nat \<Rightarrow> call list" where
  "ombreSegment points colorStr size' opacity pressureSensitivity i =
     (let point = points ! i;
          pressure = pressureOr1 point;
          adjustedSize = size' * (1 + (pressure - 0.5) * pressureSensitivity);
          progress = real i / real (length points - 1);
          adjustedOpacity = opacity * (1 - progress * 0.3) * pressure
      in [SetLineWidth (Num adjustedSize), SetGlobalAlpha adjustedOpacity,
          SetStrokeStyle (withAlpha colorStr adjustedOpacity),
          LineTo (x_of point) (y_of point), Stroke]
         @ (if i < length points - 1
            then [BeginPath, MoveTo (x_of point) (y_of point)] else []))"

definition applyOmbreLipOutline ::
  "point list \<Rightarrow> style \<Rightarrow> real \<Rightarrow> real \<Rightarrow> real \<Rightarrow> real \<Rightarrow> call list" where
  "applyOmbreLipOutline points colorStr size' opacity spacing pressureSensitivity =
     (if length points < 2 then []
      else [BeginPath, SetStrokeStyle colorStr, SetLineWidth (Num size'), SetLineCap ''round'',
            SetLineJoin ''round'', MoveTo (x_of (points ! 0)) (y_of (points ! 0))]
           @ concat (map (ombreSegment points colorStr size' opacity pressureSensitivity)
                         [1..<length points]))"

definition segmentLength :: "point list \<Rightarrow> nat \<Rightarrow> real" where
  "segmentLength points i =
     (let dx = x_of (points ! i) - x_of (points ! (i - 1));
          dy = y_of (points ! i) - y_of (points ! (i - 1))
      in sqrt (dx * dx + dy * dy))"

definition totalLength :: "point list \<Rightarrow> real" where
  "totalLength points =
     foldl (\<lambda>acc i. acc + segmentLength points i) 0 [1..<length points]"

definition lift :: "(real \<Rightarrow> real) \<Rightarrow> jsnum \<Rightarrow> jsnum" where
  "lift f v = (case v of Num a \<Rightarrow> Num (f a) | NaN \<Rightarrow> NaN)"

text \<open>
  The second loop of the tapered brush, over the indices still to visit.  The quotient
  \<open>currentLength / totalLength\<close> is NaN when the total is 0: every segment length is a
  non-negative square root, so a total of 0 makes the travelled length 0 as well, and
  0/0 is NaN, which then propagates through the products.
\<close>

fun taperLoop :: "point list \<Rightarrow> real \<Rightarrow> real \<Rightarrow> real \<Rightarrow> real \<Rightarrow> nat list \<Rightarrow> call list" where
  "taperLoop points size' pressureSensitivity totalLen currentLength [] = []"
| "taperLoop points size' pressureSensitivity totalLen currentLength (i # is) =
     (let point = points ! i;
          pressure = pressureOr1 point;
          currentLength' = currentLength + segmentLength points i;
          progress = (if totalLen = 0 then NaN else Num (currentLength' / totalLen));
          taperFactor = lift (\<lambda>p. 4 * p * (1 - p)) progress;
          adjustedSize =
            lift (\<lambda>t. size' * t * (1 + (pressure - 0.5) * pressureSensitivity)) taperFactor
      in [SetLineWidth adjustedSize, LineTo (x_of point) (y_of point)]
         @ taperLoop points size' pressureSensitivity totalLen currentLength' is)"

definition applyMicrobladeNatural ::
  "point list \<Rightarrow> style \<Rightarrow> real \<Rightarrow> real \<Rightarrow> real \<Rightarrow> real \<Rightarrow> call list" where
  "applyMicrobladeNatural points colorStr size' opacity spacing pressureSensitivity =
     (if length points < 2 then []
      else [BeginPath, SetStrokeStyle colorStr, SetLineCap ''round'', SetLineJoin ''round'',
            SetGlobalAlpha opacity, MoveTo (x_of (points ! 0)) (y_of (points ! 0))]
           @ taperLoop points size' pressureSensitivity (totalLength points) 0
               [1..<length points]
           @ [Stroke])"

definition applyDefaultBrush :: "point list \<Rightarrow> style \<Rightarrow> real \<Rightarrow> real \<Rightarrow> call list" where
  "applyDefaultBrush points colorStr size' opacity =
     (case points of [] \<Rightarrow> []
      | p0 # rest \<Rightarrow>
          [BeginPath, SetStrokeStyle colorStr, SetLineWidth (Num size'), SetLineCap ''round'',
           SetLineJoin ''round'', SetGlobalAlpha opacity, MoveTo (x_of p0) (y_of p0)]
          @ map (\<lambda>point. LineTo (x_of point) (y_of point)) rest
          @ [Stroke])"

definition applySpecializedBrush ::
  "selected \<Rightarrow> rng \<Rightarrow> point list \<Rightarrow> style \<Rightarrow> real \<Rightarrow> real \<Rightarrow> real \<Rightarrow> real \<Rightarrow> real \<Rightarrow> call list" where
  "applySpecializedBrush cur rnd points colorStr size' opacity spacing scatter pressureSensitivity =
     (let brushId = id_of cur
      in if brushId = ''shader3RS'' then
           apply3RSShader rnd points colorStr size' opacity spacing scatter pressureSensitivity
         else if brushId = ''ombreLipOutline'' then
           applyOmbreLipOutline points colorStr size' opacity spacing pressureSensitivity
         else if brushId = ''microbladeNatural'' then
           applyMicrobladeNatural points colorStr size' opacity spacing pressureSensitivity
         else
           applyShaderBrush rnd points colorStr size' opacity spacing scatter pressureSensitivity)"

text \<open>The \<open>switch (type)\<close> of \<open>applyBrushStroke\<close>: the operations issued between save and restore.\<close>

definition dispatch :: "selected \<Rightarrow> rng \<Rightarrow> point list \<Rightarrow> style \<Rightarrow> call list" where
  "dispatch cur rnd points colorStr =
     (let size' = size_of cur; opacity = opacity_of cur; spacing = spacing_of cur;
          scatter = scatter_of cur; pressureSensitivity = pressureSensitivity_of cur
      in if type_of cur = ''liner'' then
           applyLinerBrush points colorStr size' opacity spacing scatter pressureSensitivity
         else if type_of cur = ''shader'' then
           applyShaderBrush rnd points colorStr size' opacity spacing scatter pressureSensitivity
         else if type_of cur = ''specialized'' then
           applySpecializedBrush cur rnd points colorStr size' opacity spacing scatter
             pressureSensitivity
         else
           applyDefaultBrush points colorStr size' opacity)"

definition component :: "real list \<Rightarrow> nat \<Rightarrow> real option" where
  "component color i = (if i < length color then Some (color ! i) else None)"

text \<open>The template string \<open>rgba(${color[0]}, ${color[1]}, ${color[2]}, 1)\<close>.\<close>

definition toColorStr :: "real list \<Rightarrow> style" where
  "toColorStr color = Rgba (component color 0) (component color 1) (component color 2) 1"

text \<open>
  \<open>applyBrushStroke(ctx, points, color)\<close>.  A missing argument (\<open>null\<close> or
  \<open>undefined\<close>) is \<open>None\<close>.  Reading \<open>color[0]\<close> of a missing colour throws a TypeError
  inside the \<open>try\<close> block, after \<open>ctx.save()\<close> and the assignment of the composite
  operation; the \<open>catch\<close> block logs and returns false.  Samples are objects with
  numeric coordinates and the surface supports every operation, so nothing else in the
  \<open>try\<close> block throws.
\<close>

definition applyBrushStroke ::
  "pmu \<Rightarrow> rng \<Rightarrow> surface option \<Rightarrow> point list option \<Rightarrow> real list option
     \<Rightarrow> bool \<times> surface option" where
  "applyBrushStroke this rnd ctx points color =
     (case (ctx, points, currentBrush this) of
        (Some c, Some pts, Some cur) \<Rightarrow>
          if length pts = 0 then (False, ctx)
          else
            (case color of
               None \<Rightarrow>
                 (False, Some (run [Save, SetGlobalCompositeOperation ''source-over''] c))
             | Some col \<Rightarrow>
                 let colorStr = toColorStr col
                 in (True, Some (run ([Save, SetGlobalCompositeOperation ''source-over'']
                                      @ dispatch cur rnd pts colorStr @ [Restore]) c)))
      | _ \<Rightarrow> (False, ctx))"

section \<open>Symmetry score (BlekkProFacialRecognition.js)\<close>

text \<open>
  The score subtracts one square root of a sum of squares from another, so an overflow to
  Infinity can turn into NaN, which no clamp removes.  The numbers of this module are
  therefore modelled with the two infinities and NaN: a result whose magnitude reaches
  the overflow threshold of a double becomes infinite, and the special values combine as
  IEEE 754 prescribes.  Results below the threshold are kept exact; rounding, underflow
  and the sign of zero are not modelled.
\<close>

datatype double = Finite real | PosInf | NegInf | NotANumber

text \<open>A result of this magnitude or more rounds to Infinity (round to nearest).\<close>

definition overflow :: real where
  "overflow = 2 ^ 1024 - 2 ^ 970"

text \<open>A magnitude far below the threshold, used to bound intermediate results.\<close>

definition safe :: real where
  "safe = 10 ^ 300"

definition fin :: "real \<Rightarrow> double" where
  "fin r = (if \<bar>r\<bar> < overflow then Finite r else if 0 < r then PosInf else NegInf)"

fun dneg :: "double \<Rightarrow> double" where
  "dneg (Finite a) = Finite (- a)"
| "dneg PosInf = NegInf"
| "dneg NegInf = PosInf"
| "dneg NotANumber = NotANumber"

fun dadd :: "double \<Rightarrow> double \<Rightarrow> double" where
  "dadd NotANumber b = NotANumber"
| "dadd a NotANumber = NotANumber"
| "dadd (Finite a) (Finite b) = fin (a + b)"
| "dadd PosInf NegInf = NotANumber"
| "dadd NegInf PosInf = NotANumber"
| "dadd PosInf b = PosInf"
| "dadd a PosInf = PosInf"
| "dadd NegInf b = NegInf"
| "dadd a NegInf = NegInf"

text \<open>The sign of an infinite product or quotient: \<open>True\<close> for positive.\<close>

definition signed :: "bool \<Rightarrow> double" where
  "signed positive = (if positive then PosInf else NegInf)"

fun dmul :: "double \<Rightarrow> double \<Rightarrow> double" where
  "dmul NotANumber b = NotANumber"
| "dmul a NotANumber = NotANumber"
| "dmul (Finite a) (Finite b) = fin (a * b)"
| "dmul (Finite a) PosInf = (if a = 0 then NotANumber else signed (0 < a))"
| "dmul (Finite a) NegInf = (if a = 0 then NotANumber else signed (a < 0))"
| "dmul PosInf (Finite b) = (if b = 0 then NotANumber else signed (0 < b))"
| "dmul NegInf (Finite b) = (if b = 0 then NotANumber else signed (b < 0))"
| "dmul PosInf PosInf = PosInf"
| "dmul PosInf NegInf = NegInf"
| "dmul NegInf PosInf = NegInf"
| "dmul NegInf NegInf = PosInf"

fun ddiv :: "double \<Rightarrow> double \<Rightarrow> double" where
  "ddiv NotANumber b = NotANumber"
| "ddiv a NotANumber = NotANumber"
| "ddiv (Finite a) (Finite b) =
     (if b = 0 then (if a = 0 then NotANumber else signed (0 < a)) else fin (a / b))"
| "ddiv (Finite a) PosInf = Finite 0"
| "ddiv (Finite a) NegInf = Finite 0"
| "ddiv PosInf (Finite b) = signed (0 \<le> b)"
| "ddiv NegInf (Finite b) = signed (b < 0)"
| "ddiv PosInf b = NotANumber"
| "ddiv NegInf b = NotANumber"

instantiation double :: "{plus, minus, times, inverse}"
begin

definition plus_double :: "double \<Rightarrow> double \<Rightarrow> double" where
  "plus_double a b = dadd a b"

definition minus_double :: "double \<Rightarrow> double \<Rightarrow> double" where
  "minus_double a b = dadd a (dneg b)"

definition times_double :: "double \<Rightarrow> double \<Rightarrow> double" where
  "times_double a b = dmul a b"

definition divide_double :: "double \<Rightarrow> double \<Rightarrow> double" where
  "divide_double a b = ddiv a b"

definition inverse_double :: "double \<Rightarrow> double" where
  "inverse_double a = ddiv (Finite 1) a"

instance ..

end

text \<open>The comparisons \<open>a < b\<close> of the source; every comparison with NaN is false.\<close>

fun lt :: "double \<Rightarrow> double \<Rightarrow> bool" where
  "lt NotANumber b = False"
| "lt a NotANumber = False"
| "lt (Finite a) (Finite b) = (a < b)"
| "lt (Finite a) PosInf = True"
| "lt NegInf (Finite b) = True"
| "lt NegInf PosInf = True"
| "lt a b = False"

fun Math_sqrt :: "double \<Rightarrow> double" where
  "Math_sqrt (Finite a) = (if a < 0 then NotANumber else Finite (sqrt a))"
| "Math_sqrt PosInf = PosInf"
| "Math_sqrt NegInf = NotANumber"
| "Math_sqrt NotANumber = NotANumber"

fun Math_abs :: "double \<Rightarrow> double" where
  "Math_abs (Finite a) = Finite \<bar>a\<bar>"
| "Math_abs PosInf = PosInf"
| "Math_abs NegInf = PosInf"
| "Math_abs NotANumber = NotANumber"

fun Math_max :: "double \<Rightarrow> double \<Rightarrow> double" where
  "Math_max NotANumber b = NotANumber"
| "Math_max a NotANumber = NotANumber"
| "Math_max a b = (if lt a b then b else a)"

fun Math_min :: "double \<Rightarrow> double \<Rightarrow> double" where
  "Math_min NotANumber b = NotANumber"
| "Math_min a NotANumber = NotANumber"
| "Math_min a b = (if lt b a then b else a)"

text \<open>\<open>Math.round\<close> rounds half up: \<open>\<lfloor>x + 1/2\<rfloor>\<close>; it returns NaN and the infinities as they are.\<close>

fun Math_round :: "double \<Rightarrow> double" where
  "Math_round (Finite a) = Finite (of_int \<lfloor>a + 1 / 2\<rfloor>)"
| "Math_round v = v"

record landmark =
  lx :: double
  ly :: double
  lz :: double

record landmarks =
  browLeft :: "landmark list"
  browRight :: "landmark list"
  lipOuter :: "landmark list"
  lipInner :: "landmark list"
  faceContour :: "landmark list"
  symmetryReferences :: "string \<rightharpoonup> landmark"

record line =
  x1 :: double
  y1 :: double
  x2 :: double
  y2 :: double

definition calculateCentroid :: "landmark list \<Rightarrow> double \<times> double" where
  "calculateCentroid points =
     (let sum = foldl (\<lambda>acc point. (fst acc + lx point, snd acc + ly point))
                  (Finite 0, Finite 0) points
      in (fst sum / Finite (real (length points)), snd sum / Finite (real (length points))))"

definition distanceToLine :: "double \<times> double \<Rightarrow> line \<Rightarrow> double" where
  "distanceToLine point l =
     (let x = fst point; y = snd point;
          A = x - x1 l; B = y - y1 l; C = x2 l - x1 l; D = y2 l - y1 l;
          dot = A * C + B * D;
          lenSq = C * C + D * D;
          param = (if lenSq \<noteq> Finite 0 then dot / lenSq else Finite (- 1));
          xx = (if lt param (Finite 0) then x1 l
                else if lt (Finite 1) param then x2 l else x1 l + param * C);
          yy = (if lt param (Finite 0) then y1 l
                else if lt (Finite 1) param then y2 l else y1 l + param * D);
          dx = x - xx;
          dy = y - yy
      in Math_sqrt (dx * dx + dy * dy))"

text \<open>
  The value that the score clamps and rounds, when the three reference points are present
  and at least one of the two comparisons applies: \<open>100 - avgDeviation / maxDeviation * 100\<close>.
\<close>

definition calculateSymmetryScore :: "landmarks \<Rightarrow> double" where
  "calculateSymmetryScore lms =
     (let refs = symmetryReferences lms
      in case (refs ''midForehead'', refs ''noseTip'', refs ''midChin'') of
           (Some midForehead, Some noseTip, Some midChin) \<Rightarrow>
             (let midline = \<lparr>x1 = lx midForehead, y1 = ly midForehead,
                             x2 = lx midChin, y2 = ly midChin\<rparr>;
                  (totalDeviation1, pointCount1) =
                    (if length (browLeft lms) > 0 \<and> length (browRight lms) > 0 then
                       let leftBrowCenter = calculateCentroid (browLeft lms);
                           rightBrowCenter = calculateCentroid (browRight lms);
                           leftDist = distanceToLine leftBrowCenter midline;
                           rightDist = distanceToLine rightBrowCenter midline
                       in (Finite 0 + Math_abs (leftDist - rightDist), 0 + 1)
                     else (Finite 0, 0 :: nat));
                  (totalDeviation, pointCount) =
                    (if length (lipOuter lms) > 0 then
                       let lipCenter = calculateCentroid (lipOuter lms);
                           lipDeviation = distanceToLine lipCenter midline
                       in (totalDeviation1 + lipDeviation, pointCount1 + 1)
                     else (totalDeviation1, pointCount1))
              in if pointCount = 0 then Finite 80
                 else
                   let avgDeviation = totalDeviation / Finite (real pointCount);
                       maxDeviation = Finite 20;
                       score = Math_max (Finite 0)
                                 (Math_min (Finite 100)
                                    (Finite 100 - (avgDeviation / maxDeviation * Finite 100)))
                   in Math_round score)
         | _ \<Rightarrow> Finite 80)"

section \<open>Observations and example inputs\<close>

text \<open>A filled circular dab as it appears among the painted marks.\<close>

definition dab :: "dstate \<Rightarrow> real \<Rightarrow> real \<Rightarrow> real \<Rightarrow> style \<Rightarrow> real \<Rightarrow> mark" where
  "dab st x y radius color alpha =
     Filled [Arc x y radius 0 (pi * 2)] (st\<lparr>globalAlpha := alpha, fillStyle := color\<rparr>)"


fun widths :: "call list \<Rightarrow> jsnum list" where
  "widths [] = []"
| "widths (SetLineWidth w # cs) = w # widths cs"
| "widths (c # cs) = widths cs"

fun arcs :: "call list \<Rightarrow> (real \<times> real \<times> real) list" where
  "arcs [] = []"
| "arcs (Arc x y r s e # cs) = (x, y, r) # arcs cs"
| "arcs (c # cs) = arcs cs"

text \<open>The length of the path up to sample \<open>i\<close>: the sum of the first \<open>i\<close> segment lengths.\<close>

definition travelled :: "point list \<Rightarrow> nat \<Rightarrow> real" where
  "travelled points i = sum_list (map (segmentLength points) [1..<Suc i])"

text \<open>
  The width the tapered brush assigns in one iteration, as a function of the pressure read
  there and of the length travelled after the update.
\<close>

definition taperWidth :: "real \<Rightarrow> real \<Rightarrow> real \<Rightarrow> real \<Rightarrow> real \<Rightarrow> jsnum" where
  "taperWidth size' ps totalLen pressure currentLength =
     lift (\<lambda>t. size' * t * (1 + (pressure - 0.5) * ps))
       (lift (\<lambda>p. 4 * p * (1 - p))
          (if totalLen = 0 then NaN else Num (currentLength / totalLen)))"

text \<open>
  The number of points of \<open>rest\<close> that pass the distance gate \<open>d\<close> when the last
  stamped position starts at \<open>(ax, ay)\<close> and moves to each point that passes.
\<close>

fun gated :: "real \<Rightarrow> real \<Rightarrow> real \<Rightarrow> point list \<Rightarrow> nat" where
  "gated d ax ay [] = 0"
| "gated d ax ay (p # rest) =
     (if sqrt ((x_of p - ax) * (x_of p - ax) + (y_of p - ay) * (y_of p - ay)) \<ge> d
      then Suc (gated d (x_of p) (y_of p) rest)
      else gated d ax ay rest)"

text \<open>Every third element, from the first: the centre dabs among the circles of triple dabs.\<close>

fun centres :: "'a list \<Rightarrow> 'a list" where
  "centres (a # b # c # rest) = a # centres rest"
| "centres rest = []"

text \<open>The circles of a sequence of triple dabs, each given as centre and two satellites.\<close>

definition triples :: "('a \<times> 'a \<times> 'a) list \<Rightarrow> 'a list" where
  "triples cs = concat (map (\<lambda>(c, a, b). [c, a, b]) cs)"

text \<open>A surface whose composite mode is not the renderer's own.\<close>

definition exampleSurface :: surface where
  "exampleSurface =
     \<lparr>state = \<lparr>globalCompositeOperation = ''multiply'', globalAlpha = 1, lineDash = [],
                strokeStyle = Rgba (Some 0) (Some 0) (Some 0) 1,
                fillStyle = Rgba (Some 0) (Some 0) (Some 0) 1,
                lineWidth = Num 1, lineCap = ''butt'', lineJoin = ''miter''\<rparr>,
      saved = [], path = [], painted = []\<rparr>"

definition shaderSession :: pmu where
  "shaderSession = snd (selectBrush ''basic'' ''standardShader'' constructor)"

definition tripleSession :: pmu where
  "tripleSession =
     snd (selectBrush ''advanced'' ''shader3RS'' (constructor\<lparr>userSubscription := ''pro''\<rparr>))"

text \<open>
  Sessions whose selected brush carries a family, respectively a specialized variant id,
  that the renderer does not know.  \<open>updateCurrentBrushSettings\<close> can produce both
  from a catalog selection, since \<open>type\<close> and \<open>id\<close> are keys of the selected brush.
\<close>

definition stippleSession :: pmu where
  "stippleSession =
     \<lparr>currentBrush = Some \<lparr>name_of = ''Standard Liner'', type_of = ''stipple'', size_of = 1,
        opacity_of = 0.9, spacing_of = 0.1, scatter_of = 0, pressureSensitivity_of = 0.7,
        subscription_of = ''free'', id_of = ''standardLiner'', category_of = ''basic''\<rparr>,
      userSubscription = ''free''\<rparr>"

definition futureSession :: pmu where
  "futureSession =
     \<lparr>currentBrush = Some \<lparr>name_of = ''3RS Shader'', type_of = ''specialized'', size_of = 3,
        opacity_of = 0.85, spacing_of = 0.12, scatter_of = 0.08, pressureSensitivity_of = 0.9,
        subscription_of = ''pro'', id_of = ''shader5RS'', category_of = ''advanced''\<rparr>,
      userSubscription = ''pro''\<rparr>"

text \<open>The two-sample stroke from (0,0) to (10,0) at full pressure.\<close>

definition twoPoints :: "point list" where
  "twoPoints = [\<lparr>x_of = 0, y_of = 0, pressure_of = Some 1\<rparr>,
                \<lparr>x_of = 10, y_of = 0, pressure_of = Some 1\<rparr>]"

text \<open>Three samples on a line at full pressure, and a stroke of two coincident samples.\<close>

definition threePoints :: "point list" where
  "threePoints = [\<lparr>x_of = 0, y_of = 0, pressure_of = Some 1\<rparr>,
                  \<lparr>x_of = 5, y_of = 0, pressure_of = Some 1\<rparr>,
                  \<lparr>x_of = 10, y_of = 0, pressure_of = Some 1\<rparr>]"

definition tapTwice :: "point list" where
  "tapTwice = [\<lparr>x_of = 3, y_of = 4, pressure_of = Some 1\<rparr>,
               \<lparr>x_of = 3, y_of = 4, pressure_of = Some 1\<rparr>]"

text \<open>A stroke that runs back and forth on the horizontal axis.\<close>

definition zigzag :: "point list" where
  "zigzag = [\<lparr>x_of = 0, y_of = 0, pressure_of = Some 1\<rparr>,
             \<lparr>x_of = 5, y_of = 0, pressure_of = Some 1\<rparr>,
             \<lparr>x_of = 9, y_of = 0, pressure_of = Some 1\<rparr>,
             \<lparr>x_of = 1, y_of = 0, pressure_of = Some 1\<rparr>,
             \<lparr>x_of = 9, y_of = 0, pressure_of = Some 1\<rparr>]"

text \<open>
  Landmarks as a face in an image gives them: every coordinate that the score reads is
  finite and of magnitude at most \<open>reach = 1e100\<close>, and no group has more than
  \<open>1e50\<close> points.
\<close>

definition reach :: real where
  "reach = 10 ^ 100"

definition bounded :: "real \<Rightarrow> double \<Rightarrow> bool" where
  "bounded M v = (case v of Finite a \<Rightarrow> \<bar>a\<bar> \<le> M | _ \<Rightarrow> False)"

definition tamePoints :: "landmark list \<Rightarrow> bool" where
  "tamePoints pts =
     (real (length pts) \<le> 10 ^ 50
      \<and> list_all (\<lambda>p. bounded reach (lx p) \<and> bounded reach (ly p)) pts)"

definition tameRef :: "landmark option \<Rightarrow> bool" where
  "tameRef r =
     (case r of None \<Rightarrow> True | Some p \<Rightarrow> bounded reach (lx p) \<and> bounded reach (ly p))"

definition tame :: "landmarks \<Rightarrow> bool" where
  "tame lms =
     (tamePoints (browLeft lms) \<and> tamePoints (browRight lms) \<and> tamePoints (lipOuter lms)
      \<and> tameRef (symmetryReferences lms ''midForehead'')
      \<and> tameRef (symmetryReferences lms ''midChin''))"

text \<open>Landmarks without a nose tip, for the fallback of the score.\<close>

definition noNose :: landmarks where
  "noNose = \<lparr>browLeft = [\<lparr>lx = Finite 1, ly = Finite 2, lz = Finite 0\<rparr>],
     browRight = [\<lparr>lx = Finite 5, ly = Finite 2, lz = Finite 0\<rparr>],
     lipOuter = [], lipInner = [], faceContour = [],
     symmetryReferences = [''midForehead'' \<mapsto> \<lparr>lx = Finite 3, ly = Finite 0, lz = Finite 0\<rparr>,
                           ''midChin'' \<mapsto> \<lparr>lx = Finite 3, ly = Finite 9, lz = Finite 0\<rparr>]\<rparr>"

text \<open>
  Landmarks with all three reference points on the axis \<open>x = 0\<close> and the two brows at
  \<open>x = 1e200\<close> and \<open>x = -1e200\<close>; and ordinary landmarks of a slightly asymmetric face.
\<close>

definition huge :: real where
  "huge = 10 ^ 200"

definition farBrows :: landmarks where
  "farBrows = \<lparr>browLeft = [\<lparr>lx = Finite huge, ly = Finite 0, lz = Finite 0\<rparr>],
     browRight = [\<lparr>lx = Finite (- huge), ly = Finite 0, lz = Finite 0\<rparr>],
     lipOuter = [], lipInner = [], faceContour = [],
     symmetryReferences = [''midForehead'' \<mapsto> \<lparr>lx = Finite 0, ly = Finite 0, lz = Finite 0\<rparr>,
                           ''noseTip'' \<mapsto> \<lparr>lx = Finite 0, ly = Finite 1, lz = Finite 0\<rparr>,
                           ''midChin'' \<mapsto> \<lparr>lx = Finite 0, ly = Finite 2, lz = Finite 0\<rparr>]\<rparr>"

definition nearlyEven :: landmarks where
  "nearlyEven = \<lparr>browLeft = [\<lparr>lx = Finite 4, ly = Finite 1, lz = Finite 0\<rparr>],
     browRight = [\<lparr>lx = Finite (- 1), ly = Finite 1, lz = Finite 0\<rparr>],
     lipOuter = [], lipInner = [], faceContour = [],
     symmetryReferences = [''midForehead'' \<mapsto> \<lparr>lx = Finite 0, ly = Finite 0, lz = Finite 0\<rparr>,
                           ''noseTip'' \<mapsto> \<lparr>lx = Finite 0, ly = Finite 1, lz = Finite 0\<rparr>,
                           ''midChin'' \<mapsto> \<lparr>lx = Finite 0, ly = Finite 2, lz = Finite 0\<rparr>]\<rparr>"

text \<open>The same face with one brow coordinate reported as NaN by the detector.\<close>

definition nanBrow :: landmarks where
  "nanBrow = \<lparr>browLeft = [\<lparr>lx = NotANumber, ly = Finite 1, lz = Finite 0\<rparr>],
     browRight = [\<lparr>lx = Finite (- 1), ly = Finite 1, lz = Finite 0\<rparr>],
     lipOuter = [], lipInner = [], faceContour = [],
     symmetryReferences = [''midForehead'' \<mapsto> \<lparr>lx = Finite 0, ly = Finite 0, lz = Finite 0\<rparr>,
                           ''noseTip'' \<mapsto> \<lparr>lx = Finite 0, ly = Finite 1, lz = Finite 0\<rparr>,
                           ''midChin'' \<mapsto> \<lparr>lx = Finite 0, ly = Finite 2, lz = Finite 0\<rparr>]\<rparr>"

section \<open>Properties of brush selection\<close>



section \<open>Properties of the symmetry score\<close>

lemma safe_below_overflow: "safe < overflow"
  by (simp add: safe_def overflow_def)

lemma fin_Finite:
  assumes "\<bar>r\<bar> \<le> safe"
  shows "fin r = Finite r"
proof -
  from assms safe_below_overflow have "\<bar>r\<bar> < overflow" by linarith
  then show ?thesis by (simp add: fin_def)
qed

lemma fin_not_NaN: "fin r \<noteq> NotANumber"
  by (simp add: fin_def)

lemma clamp_round_shape:
  "Math_round (Math_max (Finite 0) (Math_min (Finite 100) v)) = NotANumber
 \<or> (\<exists>k::int. 0 \<le> k \<and> k \<le> 100
        \<and> Math_round (Math_max (Finite 0) (Math_min (Finite 100) v)) = Finite (of_int k))"
proof (cases v)
  case (Finite a)
  have lo: "0 \<le> \<lfloor>max 0 (min 100 a) + 1 / 2\<rfloor>" by simp
  have "max 0 (min 100 a) + 1 / 2 < 101" by simp
  then have hi: "\<lfloor>max 0 (min 100 a) + 1 / 2\<rfloor> \<le> 100" by (simp add: floor_less_iff)
  have "Math_round (Math_max (Finite 0) (Math_min (Finite 100) v))
          = Finite (of_int \<lfloor>max 0 (min 100 a) + 1 / 2\<rfloor>)"
    using Finite by (auto simp: max_def min_def)
  with lo hi show ?thesis by blast
next
  case PosInf
  then have "Math_round (Math_max (Finite 0) (Math_min (Finite 100) v)) = Finite (of_int 100)"
    by simp
  then show ?thesis by (intro disjI2 exI [of _ 100]) simp
next
  case NegInf
  then have "Math_round (Math_max (Finite 0) (Math_min (Finite 100) v)) = Finite (of_int 0)"
    by simp
  then show ?thesis by (intro disjI2 exI [of _ 0]) simp
next
  case NotANumber
  then show ?thesis by simp
qed

lemma clamp_round_number:
  assumes "v \<noteq> NotANumber"
  shows "\<exists>k::int. 0 \<le> k \<and> k \<le> 100
        \<and> Math_round (Math_max (Finite 0) (Math_min (Finite 100) v)) = Finite (of_int k)"
proof -
  have "Math_round (Math_max (Finite 0) (Math_min (Finite 100) v)) \<noteq> NotANumber"
    using assms by (cases v) (auto split: if_splits)
  with clamp_round_shape [of v] show ?thesis by blast
qed

lemma score_shape:
  "calculateSymmetryScore lms = NotANumber
 \<or> (\<exists>k::int. 0 \<le> k \<and> k \<le> 100 \<and> calculateSymmetryScore lms = Finite (of_int k))"
proof -
  have e: "\<exists>k::int. 0 \<le> k \<and> k \<le> 100 \<and> Finite 80 = Finite (of_int k)"
    by (intro exI [of _ 80]) simp
  show ?thesis
    unfolding calculateSymmetryScore_def Let_def
    using e clamp_round_shape
    by (auto split: option.split prod.split)
qed

lemma score_missing:
  assumes "symmetryReferences lms ''midForehead'' = None
         \<or> symmetryReferences lms ''noseTip'' = None
         \<or> symmetryReferences lms ''midChin'' = None"
  shows "calculateSymmetryScore lms = Finite 80"
  using assms by (auto simp: calculateSymmetryScore_def Let_def split: option.split)

lemma sqrt_16: "sqrt 16 = 4"
  by (rule real_sqrt_unique) simp_all

lemmas double_ops = plus_double_def minus_double_def times_double_def divide_double_def

lemma fin_small:
  assumes "\<bar>r\<bar> \<le> 1000"
  shows "fin r = Finite r"
proof -
  have "(1000::real) \<le> safe" by (simp add: safe_def)
  with assms have "\<bar>r\<bar> \<le> safe" by linarith
  then show ?thesis by (rule fin_Finite)
qed

lemma huge_pos: "0 < huge"
  by (simp add: huge_def)

lemma fin_huge: "fin huge = Finite huge" "fin (- huge) = Finite (- huge)"
proof -
  have "huge \<le> safe" by (simp add: huge_def safe_def)
  with huge_pos have "\<bar>huge\<bar> \<le> safe" and "\<bar>- huge\<bar> \<le> safe" by simp_all
  then show "fin huge = Finite huge" and "fin (- huge) = Finite (- huge)"
    by (simp_all only: fin_Finite)
qed

lemma fin_huge_squared: "fin (huge * huge) = PosInf"
proof -
  have n: "(200::nat) + 200 = 400" by simp
  have "huge * huge = 10 ^ (200 + 200)" unfolding huge_def by (rule power_add [symmetric])
  then have sq: "huge * huge = 10 ^ 400" unfolding n .
  have "\<not> (10::real) ^ 400 < overflow" by (simp add: overflow_def)
  then have big: "\<not> huge * huge < overflow" unfolding sq .
  have pos: "0 < huge * huge" using huge_pos by simp
  from big pos have "\<not> \<bar>huge * huge\<bar> < overflow" by linarith
  with pos show ?thesis unfolding fin_def by simp
qed

lemma farBrows_left:
  "distanceToLine (calculateCentroid (browLeft farBrows))
     \<lparr>x1 = Finite 0, y1 = Finite 0, x2 = Finite 0, y2 = Finite 2\<rparr> = PosInf"
  using huge_pos
  by (simp add: farBrows_def calculateCentroid_def distanceToLine_def Let_def double_ops
        fin_small fin_huge fin_huge_squared)

lemma farBrows_right:
  "distanceToLine (calculateCentroid (browRight farBrows))
     \<lparr>x1 = Finite 0, y1 = Finite 0, x2 = Finite 0, y2 = Finite 2\<rparr> = PosInf"
  using huge_pos
  by (simp add: farBrows_def calculateCentroid_def distanceToLine_def Let_def double_ops
        fin_small fin_huge fin_huge_squared)


lemma add_fin:
  assumes "\<bar>a + b\<bar> \<le> safe"
  shows "Finite a + Finite b = Finite (a + b)"
  using assms by (simp add: plus_double_def fin_Finite)

lemma sub_fin:
  assumes "\<bar>a - b\<bar> \<le> safe"
  shows "Finite a - Finite b = Finite (a - b)"
  using assms by (simp add: minus_double_def fin_Finite)

lemma mul_fin:
  assumes "\<bar>a * b\<bar> \<le> safe"
  shows "Finite a * Finite b = Finite (a * b)"
  using assms by (simp add: times_double_def fin_Finite)

lemma div_fin:
  assumes "b \<noteq> 0" and "\<bar>a / b\<bar> \<le> safe"
  shows "Finite a / Finite b = Finite (a / b)"
  using assms by (simp add: divide_double_def fin_Finite)

lemma boundedE:
  assumes "bounded M v"
  obtains a where "v = Finite a" and "\<bar>a\<bar> \<le> M"
  using assms by (cases v) (simp_all add: bounded_def)

lemma sum_fold_bounded:
  assumes "\<forall>p \<in> set pts. bounded M (lx p) \<and> bounded M (ly p)" and "0 \<le> M"
      and "\<bar>a\<bar> + real (length pts) * M \<le> safe"
      and "\<bar>b\<bar> + real (length pts) * M \<le> safe"
  shows "\<exists>a' b'. foldl (\<lambda>acc point. (fst acc + lx point, snd acc + ly point))
                     (Finite a, Finite b) pts = (Finite a', Finite b')
                 \<and> \<bar>a'\<bar> \<le> \<bar>a\<bar> + real (length pts) * M
                 \<and> \<bar>b'\<bar> \<le> \<bar>b\<bar> + real (length pts) * M"
  using assms
proof (induction pts arbitrary: a b)
  case Nil
  show ?case by simp
next
  case (Cons p pts)
  let ?n = "real (length pts)"
  have len: "real (length (p # pts)) * M = M + ?n * M" by (simp add: algebra_simps)
  have nM: "0 \<le> ?n * M" using Cons.prems(2) by simp
  from Cons.prems(1) obtain u where u: "lx p = Finite u" "\<bar>u\<bar> \<le> M"
    by (auto elim: boundedE)
  from Cons.prems(1) obtain v where v: "ly p = Finite v" "\<bar>v\<bar> \<le> M"
    by (auto elim: boundedE)
  have au: "\<bar>a + u\<bar> + ?n * M \<le> safe"
    using Cons.prems(3) u(2) unfolding len by linarith
  have bv: "\<bar>b + v\<bar> + ?n * M \<le> safe"
    using Cons.prems(4) v(2) unfolding len by linarith
  have s1: "Finite a + lx p = Finite (a + u)"
    unfolding u(1) using au nM by (intro add_fin) linarith
  have s2: "Finite b + ly p = Finite (b + v)"
    unfolding v(1) using bv nM by (intro add_fin) linarith
  have rest: "\<forall>q \<in> set pts. bounded M (lx q) \<and> bounded M (ly q)"
    using Cons.prems(1) by simp
  obtain a' b' where
    f: "foldl (\<lambda>acc point. (fst acc + lx point, snd acc + ly point))
          (Finite (a + u), Finite (b + v)) pts = (Finite a', Finite b')"
    and a': "\<bar>a'\<bar> \<le> \<bar>a + u\<bar> + ?n * M" and b': "\<bar>b'\<bar> \<le> \<bar>b + v\<bar> + ?n * M"
    using Cons.IH [OF rest Cons.prems(2) au bv] by blast
  have "foldl (\<lambda>acc point. (fst acc + lx point, snd acc + ly point))
          (Finite a, Finite b) (p # pts) = (Finite a', Finite b')"
    by (simp add: s1 s2 f)
  moreover have "\<bar>a'\<bar> \<le> \<bar>a\<bar> + real (length (p # pts)) * M"
    using a' u(2) unfolding len by linarith
  moreover have "\<bar>b'\<bar> \<le> \<bar>b\<bar> + real (length (p # pts)) * M"
    using b' v(2) unfolding len by linarith
  ultimately show ?case by blast
qed

lemma centroid_bounded:
  assumes "pts \<noteq> []" and "\<forall>p \<in> set pts. bounded M (lx p) \<and> bounded M (ly p)"
      and "0 \<le> M" and "real (length pts) * M \<le> safe"
  shows "\<exists>cx cy. calculateCentroid pts = (Finite cx, Finite cy) \<and> \<bar>cx\<bar> \<le> M \<and> \<bar>cy\<bar> \<le> M"
proof -
  let ?n = "real (length pts)"
  have n: "1 \<le> ?n" using assms(1) by (cases pts) simp_all
  then have npos: "0 < ?n" by linarith
  obtain sx sy where
    f: "foldl (\<lambda>acc point. (fst acc + lx point, snd acc + ly point))
          (Finite 0, Finite 0) pts = (Finite sx, Finite sy)"
    and sx: "\<bar>sx\<bar> \<le> ?n * M" and sy: "\<bar>sy\<bar> \<le> ?n * M"
    using sum_fold_bounded [OF assms(2,3), of 0 0] assms(4) by auto
  have "M * 1 \<le> M * ?n" using n assms(3) by (intro mult_left_mono) simp_all
  then have M: "M \<le> safe" using assms(4) by (simp add: mult.commute)
  have qx: "\<bar>sx / ?n\<bar> \<le> M"
  proof -
    have "\<bar>sx / ?n\<bar> = \<bar>sx\<bar> / ?n" using npos by simp
    also have "\<dots> \<le> (?n * M) / ?n" using sx npos by (intro divide_right_mono) simp_all
    also have "\<dots> = M" using npos by simp
    finally show ?thesis .
  qed
  have qy: "\<bar>sy / ?n\<bar> \<le> M"
  proof -
    have "\<bar>sy / ?n\<bar> = \<bar>sy\<bar> / ?n" using npos by simp
    also have "\<dots> \<le> (?n * M) / ?n" using sy npos by (intro divide_right_mono) simp_all
    also have "\<dots> = M" using npos by simp
    finally show ?thesis .
  qed
  have dx: "Finite sx / Finite ?n = Finite (sx / ?n)"
    using npos qx M by (intro div_fin) linarith+
  have dy: "Finite sy / Finite ?n = Finite (sy / ?n)"
    using npos qy M by (intro div_fin) linarith+
  have "calculateCentroid pts = (Finite (sx / ?n), Finite (sy / ?n))"
    by (simp add: calculateCentroid_def Let_def f dx dy)
  with qx qy show ?thesis by blast
qed


lemma abs_prod_le:
  fixes p q :: real
  assumes "\<bar>p\<bar> \<le> k" and "\<bar>q\<bar> \<le> k'"
  shows "\<bar>p * q\<bar> \<le> k * k'"
proof -
  have "\<bar>p\<bar> * \<bar>q\<bar> \<le> k * k'"
    using assms by (intro mult_mono) (auto intro: order_trans [OF abs_ge_zero])
  then show ?thesis by (simp add: abs_mult)
qed

lemma proj_bounded:
  assumes "P \<noteq> NotANumber" and "\<bar>a1\<bar> \<le> M" and "\<bar>a2\<bar> \<le> M" and "\<bar>c\<bar> \<le> 2 * M"
      and "3 * M \<le> safe" and "0 \<le> M"
  shows "\<exists>xr. (if lt P (Finite 0) then Finite a1
              else if lt (Finite 1) P then Finite a2 else Finite a1 + P * Finite c) = Finite xr
            \<and> \<bar>xr\<bar> \<le> 3 * M"
proof (cases P)
  case (Finite t)
  show ?thesis
  proof (cases "t < 0 \<or> 1 < t")
    case True
    then show ?thesis using Finite assms(2,3,6) by auto
  next
    case False
    then have t: "\<bar>t\<bar> \<le> 1" by auto
    have tc: "\<bar>t * c\<bar> \<le> 1 * (2 * M)" using t assms(4) by (rule abs_prod_le)
    then have m: "Finite t * Finite c = Finite (t * c)"
      using assms(5,6) by (intro mul_fin) linarith
    have b: "\<bar>a1 + t * c\<bar> \<le> 3 * M" using tc assms(2) by linarith
    then have "Finite a1 + Finite (t * c) = Finite (a1 + t * c)"
      using assms(5) by (intro add_fin) linarith
    then show ?thesis using False Finite m b by auto
  qed
next
  case PosInf
  then show ?thesis using assms(3,6) by auto
next
  case NegInf
  then show ?thesis using assms(2,6) by auto
next
  case NotANumber
  with assms(1) show ?thesis by simp
qed

lemma distance_bounded:
  assumes "\<bar>x\<bar> \<le> M" and "\<bar>y\<bar> \<le> M" and "\<bar>a1\<bar> \<le> M" and "\<bar>b1\<bar> \<le> M"
      and "\<bar>a2\<bar> \<le> M" and "\<bar>b2\<bar> \<le> M" and "0 \<le> M"
      and "32 * (M * M) \<le> safe" and "4 * M \<le> safe"
  shows "\<exists>d. distanceToLine (Finite x, Finite y)
               \<lparr>x1 = Finite a1, y1 = Finite b1, x2 = Finite a2, y2 = Finite b2\<rparr> = Finite d
            \<and> 0 \<le> d \<and> d \<le> 6 * M"
proof -
  have MM: "0 \<le> M * M" by simp
  have A: "Finite x - Finite a1 = Finite (x - a1)"
    using assms(1,3,9) by (intro sub_fin) linarith
  have B: "Finite y - Finite b1 = Finite (y - b1)"
    using assms(2,4,9) by (intro sub_fin) linarith
  have C: "Finite a2 - Finite a1 = Finite (a2 - a1)"
    using assms(3,5,9) by (intro sub_fin) linarith
  have D: "Finite b2 - Finite b1 = Finite (b2 - b1)"
    using assms(4,6,9) by (intro sub_fin) linarith
  have bA: "\<bar>x - a1\<bar> \<le> 2 * M" using assms(1,3) by linarith
  have bB: "\<bar>y - b1\<bar> \<le> 2 * M" using assms(2,4) by linarith
  have bC: "\<bar>a2 - a1\<bar> \<le> 2 * M" using assms(3,5) by linarith
  have bD: "\<bar>b2 - b1\<bar> \<le> 2 * M" using assms(4,6) by linarith
  have pAC: "\<bar>(x - a1) * (a2 - a1)\<bar> \<le> 2 * M * (2 * M)" using bA bC by (rule abs_prod_le)
  have pBD: "\<bar>(y - b1) * (b2 - b1)\<bar> \<le> 2 * M * (2 * M)" using bB bD by (rule abs_prod_le)
  have pCC: "\<bar>(a2 - a1) * (a2 - a1)\<bar> \<le> 2 * M * (2 * M)" using bC bC by (rule abs_prod_le)
  have pDD: "\<bar>(b2 - b1) * (b2 - b1)\<bar> \<le> 2 * M * (2 * M)" using bD bD by (rule abs_prod_le)
  have four: "2 * M * (2 * M) = 4 * (M * M)" by simp
  have AC: "Finite (x - a1) * Finite (a2 - a1) = Finite ((x - a1) * (a2 - a1))"
    using pAC assms(8) MM unfolding four by (intro mul_fin) linarith
  have BD: "Finite (y - b1) * Finite (b2 - b1) = Finite ((y - b1) * (b2 - b1))"
    using pBD assms(8) MM unfolding four by (intro mul_fin) linarith
  have CC: "Finite (a2 - a1) * Finite (a2 - a1) = Finite ((a2 - a1) * (a2 - a1))"
    using pCC assms(8) MM unfolding four by (intro mul_fin) linarith
  have DD: "Finite (b2 - b1) * Finite (b2 - b1) = Finite ((b2 - b1) * (b2 - b1))"
    using pDD assms(8) MM unfolding four by (intro mul_fin) linarith
  let ?dot = "(x - a1) * (a2 - a1) + (y - b1) * (b2 - b1)"
  let ?len = "(a2 - a1) * (a2 - a1) + (b2 - b1) * (b2 - b1)"
  have dot: "Finite ((x - a1) * (a2 - a1)) + Finite ((y - b1) * (b2 - b1)) = Finite ?dot"
    using pAC pBD assms(8) MM unfolding four by (intro add_fin) linarith
  have len: "Finite ((a2 - a1) * (a2 - a1)) + Finite ((b2 - b1) * (b2 - b1)) = Finite ?len"
    using pCC pDD assms(8) MM unfolding four by (intro add_fin) linarith
  define P where "P = (if Finite ?len \<noteq> Finite 0 then Finite ?dot / Finite ?len else Finite (- 1))"
  have P: "P \<noteq> NotANumber"
    by (simp add: P_def divide_double_def fin_not_NaN)
  have M3: "3 * M \<le> safe" using assms(7,9) by linarith
  obtain xr where
    xr: "(if lt P (Finite 0) then Finite a1
          else if lt (Finite 1) P then Finite a2 else Finite a1 + P * Finite (a2 - a1)) = Finite xr"
    and bx: "\<bar>xr\<bar> \<le> 3 * M"
    using proj_bounded [OF P assms(3,5) bC M3 assms(7)] by blast
  obtain yr where
    yr: "(if lt P (Finite 0) then Finite b1
          else if lt (Finite 1) P then Finite b2 else Finite b1 + P * Finite (b2 - b1)) = Finite yr"
    and byr: "\<bar>yr\<bar> \<le> 3 * M"
    using proj_bounded [OF P assms(4,6) bD M3 assms(7)] by blast
  have bdx: "\<bar>x - xr\<bar> \<le> 4 * M" using assms(1) bx by linarith
  have bdy: "\<bar>y - yr\<bar> \<le> 4 * M" using assms(2) byr by linarith
  have DX: "Finite x - Finite xr = Finite (x - xr)"
    using bdx assms(9) by (intro sub_fin) linarith
  have DY: "Finite y - Finite yr = Finite (y - yr)"
    using bdy assms(9) by (intro sub_fin) linarith
  have sixteen: "4 * M * (4 * M) = 16 * (M * M)" by simp
  have pX: "\<bar>(x - xr) * (x - xr)\<bar> \<le> 4 * M * (4 * M)" using bdx bdx by (rule abs_prod_le)
  have pY: "\<bar>(y - yr) * (y - yr)\<bar> \<le> 4 * M * (4 * M)" using bdy bdy by (rule abs_prod_le)
  have XX: "Finite (x - xr) * Finite (x - xr) = Finite ((x - xr) * (x - xr))"
    using pX assms(8) MM unfolding sixteen by (intro mul_fin) linarith
  have YY: "Finite (y - yr) * Finite (y - yr) = Finite ((y - yr) * (y - yr))"
    using pY assms(8) MM unfolding sixteen by (intro mul_fin) linarith
  let ?s = "(x - xr) * (x - xr) + (y - yr) * (y - yr)"
  have s0: "0 \<le> ?s" by simp
  have s32: "?s \<le> 32 * (M * M)" using pX pY unfolding sixteen by linarith
  have S: "Finite ((x - xr) * (x - xr)) + Finite ((y - yr) * (y - yr)) = Finite ?s"
    using s0 s32 assms(8) by (intro add_fin) linarith
  from s0 have "\<not> ?s < 0" by linarith
  then have R: "Math_sqrt (Finite ?s) = Finite (sqrt ?s)" by (simp only: Math_sqrt.simps if_False)
  have "(6 * M)\<^sup>2 = 36 * (M * M)" by (simp add: power2_eq_square)
  with s32 MM have "?s \<le> (6 * M)\<^sup>2" by linarith
  then have up: "sqrt ?s \<le> 6 * M" using assms(7) by (intro real_le_lsqrt) simp_all
  have "distanceToLine (Finite x, Finite y)
          \<lparr>x1 = Finite a1, y1 = Finite b1, x2 = Finite a2, y2 = Finite b2\<rparr> = Finite (sqrt ?s)"
    unfolding distanceToLine_def Let_def
    by (simp only: fst_conv snd_conv line.select_convs A B C D AC BD CC DD dot len
          P_def [symmetric] xr yr DX DY XX YY S R)
  with s0 up show ?thesis by (intro exI [of _ "sqrt ?s"]) simp
qed


lemma div_number:
  assumes "w \<noteq> NotANumber" and "c \<noteq> 0"
  shows "w / Finite c \<noteq> NotANumber"
  using assms by (cases w) (simp_all add: divide_double_def fin_not_NaN signed_def)

lemma mul_number:
  assumes "w \<noteq> NotANumber" and "c \<noteq> 0"
  shows "w * Finite c \<noteq> NotANumber"
  using assms by (cases w) (simp_all add: times_double_def fin_not_NaN signed_def)

lemma sub_number:
  assumes "w \<noteq> NotANumber"
  shows "Finite c - w \<noteq> NotANumber"
  using assms by (cases w) (simp_all add: minus_double_def fin_not_NaN)

lemma clamp_round_stays_number:
  assumes "v \<noteq> NotANumber"
  shows "Math_round (Math_max (Finite 0) (Math_min (Finite 100) v)) \<noteq> NotANumber"
  using clamp_round_number [OF assms] by auto

lemma reach_facts:
  "0 \<le> reach" "4 * reach \<le> safe" "12 * reach \<le> safe" "32 * (reach * reach) \<le> safe"
  "10 ^ 50 * reach \<le> safe"
  by (simp_all add: reach_def safe_def)

lemma group_distance:
  assumes "pts \<noteq> []" and "tamePoints pts"
      and "\<bar>a1\<bar> \<le> reach" and "\<bar>b1\<bar> \<le> reach" and "\<bar>a2\<bar> \<le> reach" and "\<bar>b2\<bar> \<le> reach"
  shows "\<exists>d. distanceToLine (calculateCentroid pts)
               \<lparr>x1 = Finite a1, y1 = Finite b1, x2 = Finite a2, y2 = Finite b2\<rparr> = Finite d
            \<and> 0 \<le> d \<and> d \<le> 6 * reach"
proof -
  have all: "\<forall>p \<in> set pts. bounded reach (lx p) \<and> bounded reach (ly p)"
    using assms(2) by (simp add: tamePoints_def list_all_iff)
  have "real (length pts) * reach \<le> 10 ^ 50 * reach"
    using assms(2) reach_facts(1) by (intro mult_right_mono) (simp_all add: tamePoints_def)
  then have n: "real (length pts) * reach \<le> safe" using reach_facts(5) by linarith
  obtain cx cy where c: "calculateCentroid pts = (Finite cx, Finite cy)"
    and cx: "\<bar>cx\<bar> \<le> reach" and cy: "\<bar>cy\<bar> \<le> reach"
    using centroid_bounded [OF assms(1) all reach_facts(1) n] by blast
  show ?thesis
    unfolding c
    by (rule distance_bounded [OF cx cy assms(3-6) reach_facts(1) reach_facts(4) reach_facts(2)])
qed

lemma score_tame:
  assumes "tame lms"
  shows "calculateSymmetryScore lms \<noteq> NotANumber"
proof (cases "symmetryReferences lms ''midForehead'' = None
            \<or> symmetryReferences lms ''noseTip'' = None
            \<or> symmetryReferences lms ''midChin'' = None")
  case True
  then show ?thesis by (simp add: score_missing)
next
  case False
  then obtain mf nt mc where refs: "symmetryReferences lms ''midForehead'' = Some mf"
    "symmetryReferences lms ''noseTip'' = Some nt" "symmetryReferences lms ''midChin'' = Some mc"
    by auto
  from assms refs obtain a1 b1 where mf: "lx mf = Finite a1" "ly mf = Finite b1"
    and a1: "\<bar>a1\<bar> \<le> reach" and b1: "\<bar>b1\<bar> \<le> reach"
    by (auto simp: tame_def tameRef_def elim!: boundedE)
  from assms refs obtain a2 b2 where mc: "lx mc = Finite a2" "ly mc = Finite b2"
    and a2: "\<bar>a2\<bar> \<le> reach" and b2: "\<bar>b2\<bar> \<le> reach"
    by (auto simp: tame_def tameRef_def elim!: boundedE)
  let ?ml = "\<lparr>x1 = lx mf, y1 = ly mf, x2 = lx mc, y2 = ly mc\<rparr>"
  have dist: "\<exists>d. distanceToLine (calculateCentroid pts) ?ml = Finite d \<and> 0 \<le> d \<and> d \<le> 6 * reach"
    if "pts \<noteq> []" and "tamePoints pts" for pts
    unfolding mf mc using that a1 b1 a2 b2 by (rule group_distance)
  have tl: "tamePoints (browLeft lms)" and tr: "tamePoints (browRight lms)"
    and tp: "tamePoints (lipOuter lms)"
    using assms by (simp_all add: tame_def)
  have brows: "\<exists>t. Finite 0 + Math_abs (distanceToLine (calculateCentroid (browLeft lms)) ?ml
                                        - distanceToLine (calculateCentroid (browRight lms)) ?ml)
                    = Finite t \<and> 0 \<le> t \<and> t \<le> 6 * reach"
    if "browLeft lms \<noteq> []" and "browRight lms \<noteq> []"
  proof -
    note ne = that
    obtain dl where dl: "distanceToLine (calculateCentroid (browLeft lms)) ?ml = Finite dl"
      and l: "0 \<le> dl" "dl \<le> 6 * reach"
      using dist [OF ne(1) tl] by blast
    obtain dr where dr: "distanceToLine (calculateCentroid (browRight lms)) ?ml = Finite dr"
      and r: "0 \<le> dr" "dr \<le> 6 * reach"
      using dist [OF ne(2) tr] by blast
    have b: "\<bar>dl - dr\<bar> \<le> 6 * reach" using l r by linarith
    have s: "Finite dl - Finite dr = Finite (dl - dr)"
      using b reach_facts(3) by (intro sub_fin) linarith
    have "Finite 0 + Finite \<bar>dl - dr\<bar> = Finite (0 + \<bar>dl - dr\<bar>)"
      using b reach_facts(3) by (intro add_fin) linarith
    then have "Finite 0 + Math_abs (Finite dl - Finite dr) = Finite \<bar>dl - dr\<bar>"
      by (simp add: s)
    with b show ?thesis unfolding dl dr by (intro exI [of _ "\<bar>dl - dr\<bar>"]) simp
  qed
  have lip: "\<exists>t'. Finite t + distanceToLine (calculateCentroid (lipOuter lms)) ?ml = Finite t'"
    if "lipOuter lms \<noteq> []" and "0 \<le> t" and "t \<le> 6 * reach" for t
  proof -
    note ne = that
    obtain d where d: "distanceToLine (calculateCentroid (lipOuter lms)) ?ml = Finite d"
      and b: "0 \<le> d" "d \<le> 6 * reach"
      using dist [OF ne(1) tp] by blast
    have "Finite t + Finite d = Finite (t + d)"
      using ne(2,3) b reach_facts(3) by (intro add_fin) linarith
    then show ?thesis unfolding d by blast
  qed
  note number = div_number mul_number sub_number clamp_round_stays_number
  show ?thesis
  proof (cases "browLeft lms \<noteq> [] \<and> browRight lms \<noteq> []")
    case True
    then obtain t where t: "Finite 0 + Math_abs (distanceToLine (calculateCentroid (browLeft lms)) ?ml
                                        - distanceToLine (calculateCentroid (browRight lms)) ?ml)
                    = Finite t" and bt: "0 \<le> t" "t \<le> 6 * reach"
      using brows by blast
    show ?thesis
    proof (cases "lipOuter lms = []")
      case True
      with \<open>browLeft lms \<noteq> [] \<and> browRight lms \<noteq> []\<close> show ?thesis
        by (simp add: calculateSymmetryScore_def Let_def refs t number)
    next
      case False
      then obtain t' where
        t': "Finite t + distanceToLine (calculateCentroid (lipOuter lms)) ?ml = Finite t'"
        using lip [OF _ bt] by blast
      with False \<open>browLeft lms \<noteq> [] \<and> browRight lms \<noteq> []\<close> show ?thesis
        by (simp add: calculateSymmetryScore_def Let_def refs t number)
    qed
  next
    case nb: False
    show ?thesis
    proof (cases "lipOuter lms = []")
      case True
      with nb show ?thesis
        by (auto simp: calculateSymmetryScore_def Let_def refs)
    next
      case False
      then obtain t' where
        t': "Finite 0 + distanceToLine (calculateCentroid (lipOuter lms)) ?ml = Finite t'"
        using lip [of 0] reach_facts(1) by auto
      with False nb show ?thesis
        by (auto simp: calculateSymmetryScore_def Let_def refs number)
    qed
  qed
qed


lemma farBrows_score: "calculateSymmetryScore farBrows = NotANumber"
proof -
  have refs: "symmetryReferences farBrows ''midForehead''
                = Some \<lparr>lx = Finite 0, ly = Finite 0, lz = Finite 0\<rparr>"
    "symmetryReferences farBrows ''noseTip''
                = Some \<lparr>lx = Finite 0, ly = Finite 1, lz = Finite 0\<rparr>"
    "symmetryReferences farBrows ''midChin''
                = Some \<lparr>lx = Finite 0, ly = Finite 2, lz = Finite 0\<rparr>"
    by (simp_all add: farBrows_def)
  have groups: "browLeft farBrows \<noteq> []" "browRight farBrows \<noteq> []" "lipOuter farBrows = []"
    by (simp_all add: farBrows_def)
  show ?thesis
    by (simp add: calculateSymmetryScore_def Let_def refs groups farBrows_left farBrows_right
          double_ops)
qed

lemma nanBrow_left:
  "distanceToLine (calculateCentroid (browLeft nanBrow))
     \<lparr>x1 = Finite 0, y1 = Finite 0, x2 = Finite 0, y2 = Finite 2\<rparr> = NotANumber"
  by (simp add: nanBrow_def calculateCentroid_def distanceToLine_def Let_def double_ops
        fin_small)

lemma nanBrow_score: "calculateSymmetryScore nanBrow = NotANumber"
proof -
  have refs: "symmetryReferences nanBrow ''midForehead''
                = Some \<lparr>lx = Finite 0, ly = Finite 0, lz = Finite 0\<rparr>"
    "symmetryReferences nanBrow ''noseTip''
                = Some \<lparr>lx = Finite 0, ly = Finite 1, lz = Finite 0\<rparr>"
    "symmetryReferences nanBrow ''midChin''
                = Some \<lparr>lx = Finite 0, ly = Finite 2, lz = Finite 0\<rparr>"
    by (simp_all add: nanBrow_def)
  have groups: "browLeft nanBrow \<noteq> []" "browRight nanBrow \<noteq> []" "lipOuter nanBrow = []"
    by (simp_all add: nanBrow_def)
  show ?thesis
    by (simp add: calculateSymmetryScore_def Let_def refs groups nanBrow_left double_ops)
qed

lemma nearlyEven_left:
  "distanceToLine (calculateCentroid (browLeft nearlyEven))
     \<lparr>x1 = Finite 0, y1 = Finite 0, x2 = Finite 0, y2 = Finite 2\<rparr> = Finite 4"
  by (simp add: nearlyEven_def calculateCentroid_def distanceToLine_def Let_def double_ops
        fin_small sqrt_16)

lemma nearlyEven_right:
  "distanceToLine (calculateCentroid (browRight nearlyEven))
     \<lparr>x1 = Finite 0, y1 = Finite 0, x2 = Finite 0, y2 = Finite 2\<rparr> = Finite 1"
  by (simp add: nearlyEven_def calculateCentroid_def distanceToLine_def Let_def double_ops
        fin_small)

lemma nearlyEven_score: "calculateSymmetryScore nearlyEven = Finite 85"
proof -
  have refs: "symmetryReferences nearlyEven ''midForehead''
                = Some \<lparr>lx = Finite 0, ly = Finite 0, lz = Finite 0\<rparr>"
    "symmetryReferences nearlyEven ''noseTip''
                = Some \<lparr>lx = Finite 0, ly = Finite 1, lz = Finite 0\<rparr>"
    "symmetryReferences nearlyEven ''midChin''
                = Some \<lparr>lx = Finite 0, ly = Finite 2, lz = Finite 0\<rparr>"
    by (simp_all add: nearlyEven_def)
  have groups: "browLeft nearlyEven \<noteq> []" "browRight nearlyEven \<noteq> []"
    "lipOuter nearlyEven = []"
    by (simp_all add: nearlyEven_def)
  show ?thesis
    by (simp add: calculateSymmetryScore_def Let_def refs groups nearlyEven_left
          nearlyEven_right double_ops fin_small)
qed

lemma nearlyEven_tame: "tame nearlyEven"
proof -
  have "(4::real) \<le> reach" by (simp add: reach_def)
  then show ?thesis
    by (simp add: tame_def tamePoints_def tameRef_def bounded_def nearlyEven_def)
qed

text \<open>
  What does hold of the score: it is the fixed default 80 whenever one of the reference
  points mid-forehead, nose tip or mid-chin is missing; whenever it is a number at all it
  is an integer between 0 and 100; and it is such an integer for all landmarks whose
  coordinates are finite and of magnitude at most \<open>1e100\<close>, with at most \<open>1e50\<close> points
  in a group.
\<close>

lemma score_range_of_tame_landmarks:
  "(symmetryReferences lms ''midForehead'' = None
      \<or> symmetryReferences lms ''noseTip'' = None
      \<or> symmetryReferences lms ''midChin'' = None
    \<longrightarrow> calculateSymmetryScore lms = Finite 80)
 \<and> (calculateSymmetryScore lms \<noteq> NotANumber \<longrightarrow>
      (\<exists>k::int. 0 \<le> k \<and> k \<le> 100 \<and> calculateSymmetryScore lms = Finite (of_int k)))
 \<and> (tame lms \<longrightarrow>
      (\<exists>k::int. 0 \<le> k \<and> k \<le> 100 \<and> calculateSymmetryScore lms = Finite (of_int k)))"
  using score_missing [of lms] score_shape [of lms] score_tame [of lms] by blast

lemma score_range_examples:
  "tame nearlyEven \<and> calculateSymmetryScore nearlyEven = Finite 85
 \<and> calculateSymmetryScore noNose = Finite 80"
proof -
  have "symmetryReferences noNose ''noseTip'' = None" by (simp add: noNose_def)
  then have "calculateSymmetryScore noNose = Finite 80" by (simp add: score_missing)
  with nearlyEven_tame nearlyEven_score show ?thesis by simp
qed

text \<open>
  C9. The score is claimed to be always an integer between 0 and 100 (the function's
  own comment says "Symmetry score (0-100)"), and 80 when a reference point is missing.
  The fallback holds, the range does not: with all three reference points present, brows
  at \<open>x = 1e200\<close> and \<open>x = -1e200\<close> make both squared distances overflow to Infinity,
  whose difference is NaN, and a brow coordinate that is NaN itself has the same effect;
  \<open>Math.min\<close>, \<open>Math.max\<close> and \<open>Math.round\<close> pass NaN on and nothing is thrown, so the
  score is NaN.  The function answers missing reference points, empty groups and thrown
  errors with the fallback 80, but lets values that are not finite through.
\<close>

theorem symmetry_score_not_a_number:
  "calculateSymmetryScore farBrows = NotANumber
 \<and> calculateSymmetryScore nanBrow = NotANumber"
  using farBrows_score nanBrow_score by simp

section \<open>Properties of the stroke renderer\<close>

lemma run_Nil: "run [] c = c"
  by (simp add: run_def)

lemma run_Cons: "run (a # cs) c = run cs (exec a c)"
  by (simp add: run_def)

lemma run_append: "run (xs @ ys) c = run ys (run xs c)"
  by (simp add: run_def)

lemma shaderStep_out_prefix:
  "\<exists>more. out (shaderStep rnd colorStr size' opacity spacing scatter ps st point) = out st @ more"
  by (simp add: shaderStep_def Let_def)

lemma shader_out_prefix:
  "\<exists>more. out (foldl (shaderStep rnd colorStr size' opacity spacing scatter ps) st rest)
           = out st @ more"
proof (induction rest arbitrary: st)
  case Nil
  show ?case by simp
next
  case (Cons point rest)
  obtain m1 where m1: "out (shaderStep rnd colorStr size' opacity spacing scatter ps st point)
                       = out st @ m1"
    using shaderStep_out_prefix by blast
  obtain m2 where "out (foldl (shaderStep rnd colorStr size' opacity spacing scatter ps)
                          (shaderStep rnd colorStr size' opacity spacing scatter ps st point) rest)
                   = out (shaderStep rnd colorStr size' opacity spacing scatter ps st point) @ m2"
    using Cons.IH by blast
  with m1 show ?case by simp
qed

lemma tripleStep_out_prefix:
  "\<exists>more. out (tripleStep rnd colorStr size' opacity spacing scatter ps st point) = out st @ more"
  by (simp add: tripleStep_def Let_def)

lemma triple_out_prefix:
  "\<exists>more. out (foldl (tripleStep rnd colorStr size' opacity spacing scatter ps) st rest)
           = out st @ more"
proof (induction rest arbitrary: st)
  case Nil
  show ?case by simp
next
  case (Cons point rest)
  obtain m1 where m1: "out (tripleStep rnd colorStr size' opacity spacing scatter ps st point)
                       = out st @ m1"
    using tripleStep_out_prefix by blast
  obtain m2 where "out (foldl (tripleStep rnd colorStr size' opacity spacing scatter ps)
                          (tripleStep rnd colorStr size' opacity spacing scatter ps st point) rest)
                   = out (tripleStep rnd colorStr size' opacity spacing scatter ps st point) @ m2"
    using Cons.IH by blast
  with m1 show ?case by simp
qed

lemma run_drawDot:
  "run (drawDot x y size' color alpha) c =
     c\<lparr>state := (state c)\<lparr>globalAlpha := alpha, fillStyle := color\<rparr>,
       path := [Arc x y (size' / 2) 0 (pi * 2)],
       painted := painted c @ [Filled [Arc x y (size' / 2) 0 (pi * 2)]
                                 ((state c)\<lparr>globalAlpha := alpha, fillStyle := color\<rparr>)]\<rparr>"
  by (simp add: drawDot_def run_def)


lemma run_drawDot_dab:
  "run (drawDot x y size' color alpha) c =
     c\<lparr>state := (state c)\<lparr>globalAlpha := alpha, fillStyle := color\<rparr>,
       path := [Arc x y (size' / 2) 0 (pi * 2)],
       painted := painted c @ [dab (state c) x y (size' / 2) color alpha]\<rparr>"
  by (simp add: run_drawDot dab_def)

lemma shader_single:
  "applyShaderBrush rnd [p0] colorStr size' opacity spacing scatter ps
     = drawDot (x_of p0) (y_of p0) size' colorStr opacity"
  by (simp add: applyShaderBrush_def shaderLoop_def shaderInit_def)

lemma triple_single:
  "apply3RSShader rnd [p0] colorStr size' opacity spacing scatter ps
     = drawTripleDot (rnd 0) (x_of p0) (y_of p0) size' colorStr opacity"
  by (simp add: apply3RSShader_def tripleLoop_def tripleInit_def)

lemma shader_starts:
  "\<exists>more. applyShaderBrush rnd (p0 # rest) colorStr size' opacity spacing scatter ps
           = drawDot (x_of p0) (y_of p0) size' colorStr opacity @ more"
  using shader_out_prefix [of rnd colorStr size' opacity spacing scatter ps
                              "shaderInit colorStr size' opacity p0" rest]
  by (simp add: applyShaderBrush_def shaderLoop_def shaderInit_def)

lemma triple_starts:
  "\<exists>more. apply3RSShader rnd (p0 # rest) colorStr size' opacity spacing scatter ps
           = drawTripleDot (rnd 0) (x_of p0) (y_of p0) size' colorStr opacity @ more"
  using triple_out_prefix [of rnd colorStr size' opacity spacing scatter ps
                              "tripleInit rnd colorStr size' opacity p0" rest]
  by (simp add: apply3RSShader_def tripleLoop_def tripleInit_def)

lemma stroke_shader_single:
  assumes "currentBrush this = Some cur" and "type_of cur = ''shader''"
  shows "applyBrushStroke this rnd (Some c) (Some [p0]) (Some col) =
     (True, Some (c\<lparr>path := [Arc (x_of p0) (y_of p0) (size_of cur / 2) 0 (pi * 2)],
        painted := painted c @
          [dab ((state c)\<lparr>globalCompositeOperation := ''source-over''\<rparr>)
             (x_of p0) (y_of p0) (size_of cur / 2) (toColorStr col) (opacity_of cur)]\<rparr>))"
  using assms
  by (simp add: applyBrushStroke_def dispatch_def shader_single run_append run_Cons run_Nil
        run_drawDot_dab toColorStr_def)

lemma stroke_triple_single:
  assumes "currentBrush this = Some cur" and "type_of cur = ''specialized''"
      and "id_of cur = ''shader3RS''"
  shows "applyBrushStroke this rnd (Some c) (Some [p0]) (Some col) =
     (let st = (state c)\<lparr>globalCompositeOperation := ''source-over''\<rparr>;
          angle = rnd 0 * pi * 2;
          offset = size_of cur * 0.6;
          xa = x_of p0 + cos angle * offset;
          ya = y_of p0 + sin angle * offset;
          xb = x_of p0 + cos (angle + pi * 2 / 3) * offset;
          yb = y_of p0 + sin (angle + pi * 2 / 3) * offset
      in (True, Some (c\<lparr>path := [Arc xb yb (size_of cur * 0.8 / 2) 0 (pi * 2)],
        painted := painted c @
          [dab st (x_of p0) (y_of p0) (size_of cur / 2) (toColorStr col) (opacity_of cur),
           dab st xa ya (size_of cur * 0.8 / 2) (toColorStr col) (opacity_of cur * 0.9),
           dab st xb yb (size_of cur * 0.8 / 2) (toColorStr col) (opacity_of cur * 0.9)]\<rparr>)))"
  using assms
  by (simp add: applyBrushStroke_def dispatch_def applySpecializedBrush_def triple_single
        drawTripleDot_def run_append run_Cons run_Nil run_drawDot_dab toColorStr_def Let_def
        dab_def)


text \<open>
  C10. For every non-empty stroke the Shader brush and the 3RS (triple-point) brush first
  stamp, without any distance test, jitter or pressure, a dab centred exactly at the first
  point with radius \<open>size/2\<close> and alpha equal to the preset opacity (for the 3RS brush
  followed by its two satellite dabs).  A single-point stroke issues nothing else, so
  rendering it under these brushes paints exactly one dab (respectively one triple dab),
  returns true, and leaves the transient state as it was.
\<close>

theorem initial_stamp:
  "(\<exists>more. applyShaderBrush rnd (p0 # rest) colorStr size' opacity spacing scatter ps
       = [BeginPath, SetGlobalAlpha opacity, SetFillStyle colorStr,
          Arc (x_of p0) (y_of p0) (size' / 2) 0 (pi * 2), Fill] @ more
     \<and> (rest = [] \<longrightarrow> more = []))
 \<and> (\<exists>more. apply3RSShader rnd (p0 # rest) colorStr size' opacity spacing scatter ps
       = [BeginPath, SetGlobalAlpha opacity, SetFillStyle colorStr,
          Arc (x_of p0) (y_of p0) (size' / 2) 0 (pi * 2), Fill]
         @ drawDot (x_of p0 + cos (rnd 0 * pi * 2) * (size' * 0.6))
                   (y_of p0 + sin (rnd 0 * pi * 2) * (size' * 0.6))
                   (size' * 0.8) colorStr (opacity * 0.9)
         @ drawDot (x_of p0 + cos (rnd 0 * pi * 2 + pi * 2 / 3) * (size' * 0.6))
                   (y_of p0 + sin (rnd 0 * pi * 2 + pi * 2 / 3) * (size' * 0.6))
                   (size' * 0.8) colorStr (opacity * 0.9)
         @ more
     \<and> (rest = [] \<longrightarrow> more = []))
 \<and> (currentBrush this = Some cur \<and> type_of cur = ''shader'' \<longrightarrow>
      applyBrushStroke this rnd (Some c) (Some [p0]) (Some col) =
        (True, Some (c\<lparr>path := [Arc (x_of p0) (y_of p0) (size_of cur / 2) 0 (pi * 2)],
           painted := painted c @
             [dab ((state c)\<lparr>globalCompositeOperation := ''source-over''\<rparr>)
                (x_of p0) (y_of p0) (size_of cur / 2) (toColorStr col) (opacity_of cur)]\<rparr>)))
 \<and> (currentBrush this = Some cur \<and> type_of cur = ''specialized'' \<and> id_of cur = ''shader3RS'' \<longrightarrow>
      applyBrushStroke this rnd (Some c) (Some [p0]) (Some col) =
        (let st = (state c)\<lparr>globalCompositeOperation := ''source-over''\<rparr>;
             angle = rnd 0 * pi * 2;
             offset = size_of cur * 0.6;
             xa = x_of p0 + cos angle * offset;
             ya = y_of p0 + sin angle * offset;
             xb = x_of p0 + cos (angle + pi * 2 / 3) * offset;
             yb = y_of p0 + sin (angle + pi * 2 / 3) * offset
         in (True, Some (c\<lparr>path := [Arc xb yb (size_of cur * 0.8 / 2) 0 (pi * 2)],
           painted := painted c @
             [dab st (x_of p0) (y_of p0) (size_of cur / 2) (toColorStr col) (opacity_of cur),
              dab st xa ya (size_of cur * 0.8 / 2) (toColorStr col) (opacity_of cur * 0.9),
              dab st xb yb (size_of cur * 0.8 / 2) (toColorStr col) (opacity_of cur * 0.9)]\<rparr>))))"
proof (intro conjI)
  obtain m where m: "applyShaderBrush rnd (p0 # rest) colorStr size' opacity spacing scatter ps
                     = drawDot (x_of p0) (y_of p0) size' colorStr opacity @ m"
    using shader_starts by blast
  have "rest = [] \<longrightarrow> m = []"
    using m shader_single [of rnd p0 colorStr size' opacity spacing scatter ps] by auto
  with m show "\<exists>more. applyShaderBrush rnd (p0 # rest) colorStr size' opacity spacing scatter ps
       = [BeginPath, SetGlobalAlpha opacity, SetFillStyle colorStr,
          Arc (x_of p0) (y_of p0) (size' / 2) 0 (pi * 2), Fill] @ more
     \<and> (rest = [] \<longrightarrow> more = [])"
    by (auto simp: drawDot_def)
next
  obtain m where m: "apply3RSShader rnd (p0 # rest) colorStr size' opacity spacing scatter ps
                     = drawTripleDot (rnd 0) (x_of p0) (y_of p0) size' colorStr opacity @ m"
    using triple_starts by blast
  have "rest = [] \<longrightarrow> m = []"
    using m triple_single [of rnd p0 colorStr size' opacity spacing scatter ps] by auto
  with m show "\<exists>more. apply3RSShader rnd (p0 # rest) colorStr size' opacity spacing scatter ps
       = [BeginPath, SetGlobalAlpha opacity, SetFillStyle colorStr,
          Arc (x_of p0) (y_of p0) (size' / 2) 0 (pi * 2), Fill]
         @ drawDot (x_of p0 + cos (rnd 0 * pi * 2) * (size' * 0.6))
                   (y_of p0 + sin (rnd 0 * pi * 2) * (size' * 0.6))
                   (size' * 0.8) colorStr (opacity * 0.9)
         @ drawDot (x_of p0 + cos (rnd 0 * pi * 2 + pi * 2 / 3) * (size' * 0.6))
                   (y_of p0 + sin (rnd 0 * pi * 2 + pi * 2 / 3) * (size' * 0.6))
                   (size' * 0.8) colorStr (opacity * 0.9)
         @ more
     \<and> (rest = [] \<longrightarrow> more = [])"
    by (auto simp: drawTripleDot_def Let_def drawDot_def)
next
  show "currentBrush this = Some cur \<and> type_of cur = ''shader'' \<longrightarrow>
      applyBrushStroke this rnd (Some c) (Some [p0]) (Some col) =
        (True, Some (c\<lparr>path := [Arc (x_of p0) (y_of p0) (size_of cur / 2) 0 (pi * 2)],
           painted := painted c @
             [dab ((state c)\<lparr>globalCompositeOperation := ''source-over''\<rparr>)
                (x_of p0) (y_of p0) (size_of cur / 2) (toColorStr col) (opacity_of cur)]\<rparr>))"
    using stroke_shader_single by blast
next
  show "currentBrush this = Some cur \<and> type_of cur = ''specialized'' \<and> id_of cur = ''shader3RS'' \<longrightarrow>
      applyBrushStroke this rnd (Some c) (Some [p0]) (Some col) =
        (let st = (state c)\<lparr>globalCompositeOperation := ''source-over''\<rparr>;
             angle = rnd 0 * pi * 2;
             offset = size_of cur * 0.6;
             xa = x_of p0 + cos angle * offset;
             ya = y_of p0 + sin angle * offset;
             xb = x_of p0 + cos (angle + pi * 2 / 3) * offset;
             yb = y_of p0 + sin (angle + pi * 2 / 3) * offset
         in (True, Some (c\<lparr>path := [Arc xb yb (size_of cur * 0.8 / 2) 0 (pi * 2)],
           painted := painted c @
             [dab st (x_of p0) (y_of p0) (size_of cur / 2) (toColorStr col) (opacity_of cur),
              dab st xa ya (size_of cur * 0.8 / 2) (toColorStr col) (opacity_of cur * 0.9),
              dab st xb yb (size_of cur * 0.8 / 2) (toColorStr col) (opacity_of cur * 0.9)]\<rparr>)))"
    using stroke_triple_single by blast
qed

lemma shaderSession_brush:
  "currentBrush shaderSession = Some \<lparr>name_of = ''Standard Shader'', type_of = ''shader'',
     size_of = 3, opacity_of = 0.8, spacing_of = 0.15, scatter_of = 0.1,
     pressureSensitivity_of = 0.8, subscription_of = ''free'', id_of = ''standardShader'',
     category_of = ''basic''\<rparr>"
  by (simp add: shaderSession_def selectBrush_def brushPresets_def basic_def constructor_def
        brush.extend_def Let_def)

lemma tripleSession_brush:
  "currentBrush tripleSession = Some \<lparr>name_of = ''3RS Shader'', type_of = ''specialized'',
     size_of = 3, opacity_of = 0.85, spacing_of = 0.12, scatter_of = 0.08,
     pressureSensitivity_of = 0.9, subscription_of = ''pro'', id_of = ''shader3RS'',
     category_of = ''advanced''\<rparr>"
  by (simp add: tripleSession_def selectBrush_def brushPresets_def advanced_def constructor_def
        brush.extend_def Let_def)

theorem initial_stamp_witness:
  "applyBrushStroke shaderSession (\<lambda>k. 0) (Some exampleSurface)
      (Some [\<lparr>x_of = 3, y_of = 4, pressure_of = Some (1/5)\<rparr>]) (Some [121, 85, 61])
     = (True, Some (exampleSurface\<lparr>path := [Arc 3 4 (3/2) 0 (pi * 2)],
          painted := [dab ((state exampleSurface)\<lparr>globalCompositeOperation := ''source-over''\<rparr>)
                        3 4 (3/2) (Rgba (Some 121) (Some 85) (Some 61) 1) (4/5)]\<rparr>))
 \<and> fst (applyBrushStroke tripleSession (\<lambda>k. 0) (Some exampleSurface)
      (Some [\<lparr>x_of = 3, y_of = 4, pressure_of = Some (1/5)\<rparr>]) (Some [121, 85, 61]))"
  using initial_stamp [of "\<lambda>k. 0" "\<lparr>x_of = 3, y_of = 4, pressure_of = Some (1/5)\<rparr>" "[]" _ _ _ _ _ _
          shaderSession "the (currentBrush shaderSession)" exampleSurface "[121, 85, 61]"]
        initial_stamp [of "\<lambda>k. 0" "\<lparr>x_of = 3, y_of = 4, pressure_of = Some (1/5)\<rparr>" "[]" _ _ _ _ _ _
          tripleSession "the (currentBrush tripleSession)" exampleSurface "[121, 85, 61]"]
  by (simp add: shaderSession_brush tripleSession_brush toColorStr_def component_def
        exampleSurface_def Let_def)

lemma stroke_early_return:
  assumes "ctx = None \<or> points = None \<or> points = Some [] \<or> currentBrush this = None"
  shows "applyBrushStroke this rnd ctx points color = (False, ctx)"
  using assms by (auto simp: applyBrushStroke_def split: option.splits)

lemma stroke_returns_false_iff:
  "\<not> fst (applyBrushStroke this rnd ctx points color) \<longleftrightarrow>
     ctx = None \<or> points = None \<or> points = Some [] \<or> currentBrush this = None \<or> color = None"
  by (auto simp: applyBrushStroke_def Let_def split: option.splits)

lemma stroke_throw:
  assumes "currentBrush this = Some cur" and "pts \<noteq> []"
  shows "applyBrushStroke this rnd (Some c) (Some pts) None =
           (False, Some (c\<lparr>state := (state c)\<lparr>globalCompositeOperation := ''source-over''\<rparr>,
                           saved := state c # saved c\<rparr>))"
  using assms by (simp add: applyBrushStroke_def run_Cons run_Nil)

text \<open>
  C1. A render that returns false is claimed to leave the transient state of the surface
  as it was.  That holds for the early returns (no surface, no stroke, empty stroke, no
  brush), which touch nothing.  It fails when the render throws after \<open>ctx.save()\<close>: with
  the colour argument missing, the call returns false, the composite mode has been
  overwritten with \<open>source-over\<close> and the saved state is still on the surface's stack,
  because the \<open>catch\<close> block returns without \<open>ctx.restore()\<close>.
\<close>

theorem stroke_throw_skips_restore:
  "applyBrushStroke shaderSession (\<lambda>k. 0) (Some exampleSurface)
      (Some [\<lparr>x_of = 3, y_of = 4, pressure_of = Some 1\<rparr>]) None
     = (False, Some (exampleSurface\<lparr>
          state := (state exampleSurface)\<lparr>globalCompositeOperation := ''source-over''\<rparr>,
          saved := [state exampleSurface]\<rparr>))
 \<and> globalCompositeOperation (state exampleSurface) = ''multiply''
 \<and> saved exampleSurface = []"
  by (simp add: stroke_throw [OF shaderSession_brush] exampleSurface_def)

lemma gate_iff:
  assumes "0 \<le> a"
  shows "(m \<le> sqrt a) = (m \<le> 0 \<or> m * m \<le> a)"
proof (cases "m \<le> 0")
  case True
  have "0 \<le> sqrt a" using assms by simp
  with True have "m \<le> sqrt a" by linarith
  with True show ?thesis by simp
next
  case False
  then have "sqrt (m * m) = m" by simp
  then have "(m \<le> sqrt a) = (sqrt (m * m) \<le> sqrt a)" by simp
  also have "\<dots> = (m * m \<le> a)" by (rule real_sqrt_le_iff)
  finally show ?thesis using False by simp
qed

lemma run_lineTos:
  "run (map (\<lambda>point. LineTo (x_of point) (y_of point)) rest) c =
     c\<lparr>path := path c @ map (\<lambda>point. LineTo (x_of point) (y_of point)) rest\<rparr>"
proof (induction rest arbitrary: c)
  case Nil
  show ?case by (simp add: run_Nil)
next
  case (Cons p rest)
  show ?case by (simp add: run_Cons Cons.IH)
qed

lemma stroke_default:
  assumes "currentBrush this = Some cur"
      and "type_of cur \<noteq> ''liner''" and "type_of cur \<noteq> ''shader''"
      and "type_of cur \<noteq> ''specialized''"
  shows "applyBrushStroke this rnd (Some c) (Some (p0 # rest)) (Some col) =
     (let polyline = MoveTo (x_of p0) (y_of p0) # map (\<lambda>point. LineTo (x_of point) (y_of point)) rest
      in (True, Some (c\<lparr>path := polyline,
            painted := painted c @
              [Stroked polyline
                 ((state c)\<lparr>globalCompositeOperation := ''source-over'',
                    strokeStyle := toColorStr col, lineWidth := Num (size_of cur),
                    lineCap := ''round'', lineJoin := ''round'',
                    globalAlpha := opacity_of cur\<rparr>)]\<rparr>)))"
  using assms
  by (simp add: applyBrushStroke_def dispatch_def applyDefaultBrush_def run_append run_Cons
        run_Nil run_lineTos Let_def)

lemma stroke_unknown_variant:
  assumes "currentBrush this = Some cur" and "type_of cur = ''specialized''"
      and "id_of cur \<noteq> ''shader3RS''" and "id_of cur \<noteq> ''ombreLipOutline''"
      and "id_of cur \<noteq> ''microbladeNatural''"
  shows "applyBrushStroke this rnd (Some c) (Some (p0 # rest)) (Some col) =
     (True, Some (run ([Save, SetGlobalCompositeOperation ''source-over'']
                       @ applyShaderBrush rnd (p0 # rest) (toColorStr col) (size_of cur)
                           (opacity_of cur) (spacing_of cur) (scatter_of cur)
                           (pressureSensitivity_of cur)
                       @ [Restore]) c))"
  using assms
  by (simp add: applyBrushStroke_def dispatch_def applySpecializedBrush_def Let_def)


text \<open>
  C3 as stated: an unrecognized family, or the specialized family with an unrecognized
  variant id, renders a plain stroked path of constant width and opacity.  The second half
  fails: a specialized brush with the unknown variant id \<open>shader5RS\<close> renders the
  stroke from (0,0) to (10,0) as two filled dabs and strokes no path.
\<close>

theorem unknown_variant_counterexample:
  "applyBrushStroke futureSession (\<lambda>k. 1/2) (Some exampleSurface) (Some twoPoints)
      (Some [121, 85, 61])
   = (True, Some (exampleSurface\<lparr>path := [Arc 10 0 (87/40) 0 (pi * 2)],
        painted :=
          [Filled [Arc 0 0 (3/2) 0 (pi * 2)]
             ((state exampleSurface)\<lparr>globalCompositeOperation := ''source-over'',
                globalAlpha := 17/20, fillStyle := Rgba (Some 121) (Some 85) (Some 61) 1\<rparr>),
           Filled [Arc 10 0 (87/40) 0 (pi * 2)]
             ((state exampleSurface)\<lparr>globalCompositeOperation := ''source-over'',
                globalAlpha := 17/20, fillStyle := Rgba (Some 121) (Some 85) (Some 61) 1\<rparr>)]\<rparr>))"
  by (simp add: applyBrushStroke_def futureSession_def twoPoints_def dispatch_def
        applySpecializedBrush_def applyShaderBrush_def shaderLoop_def shaderInit_def shaderStep_def
        Let_def
        gate_iff pressureOr1_def run_append run_Cons run_Nil run_drawDot toColorStr_def
        component_def exampleSurface_def)

text \<open>
  C3 as amended.  For a non-empty stroke and a present colour: a brush whose family is
  none of liner, shader and specialized is rendered as one stroked path through all the
  points, of width \<open>size\<close> and alpha \<open>opacity\<close>, the call returns true and the
  transient state is as before; a specialized brush whose variant id is none of the three
  known ones is rendered by the Shader (stippled) algorithm, and the call returns true.
\<close>

theorem fallback_rendering:
  assumes "currentBrush this = Some cur"
  shows "(type_of cur \<noteq> ''liner'' \<and> type_of cur \<noteq> ''shader'' \<and> type_of cur \<noteq> ''specialized'' \<longrightarrow>
      applyBrushStroke this rnd (Some c) (Some (p0 # rest)) (Some col) =
        (let polyline = MoveTo (x_of p0) (y_of p0)
                        # map (\<lambda>point. LineTo (x_of point) (y_of point)) rest
         in (True, Some (c\<lparr>path := polyline,
               painted := painted c @
                 [Stroked polyline
                    ((state c)\<lparr>globalCompositeOperation := ''source-over'',
                       strokeStyle := toColorStr col, lineWidth := Num (size_of cur),
                       lineCap := ''round'', lineJoin := ''round'',
                       globalAlpha := opacity_of cur\<rparr>)]\<rparr>))))
   \<and> (type_of cur = ''specialized'' \<and> id_of cur \<noteq> ''shader3RS''
        \<and> id_of cur \<noteq> ''ombreLipOutline'' \<and> id_of cur \<noteq> ''microbladeNatural'' \<longrightarrow>
      applyBrushStroke this rnd (Some c) (Some (p0 # rest)) (Some col) =
        (True, Some (run ([Save, SetGlobalCompositeOperation ''source-over'']
                          @ applyShaderBrush rnd (p0 # rest) (toColorStr col) (size_of cur)
                              (opacity_of cur) (spacing_of cur) (scatter_of cur)
                              (pressureSensitivity_of cur)
                          @ [Restore]) c)))"
  using stroke_default [OF assms] stroke_unknown_variant [OF assms] by blast

theorem fallback_rendering_witness:
  "applyBrushStroke stippleSession (\<lambda>k. 1/2) (Some exampleSurface) (Some twoPoints)
      (Some [121, 85, 61])
   = (True, Some (exampleSurface\<lparr>path := [MoveTo 0 0, LineTo 10 0],
        painted :=
          [Stroked [MoveTo 0 0, LineTo 10 0]
             ((state exampleSurface)\<lparr>globalCompositeOperation := ''source-over'',
                strokeStyle := Rgba (Some 121) (Some 85) (Some 61) 1, lineWidth := Num 1,
                lineCap := ''round'', lineJoin := ''round'', globalAlpha := 9/10\<rparr>)]\<rparr>))
 \<and> fst (applyBrushStroke futureSession (\<lambda>k. 1/2) (Some exampleSurface) (Some twoPoints)
      (Some [121, 85, 61]))"
  using fallback_rendering [of stippleSession "the (currentBrush stippleSession)" "\<lambda>k. 1/2"
          exampleSurface "\<lparr>x_of = 0, y_of = 0, pressure_of = Some 1\<rparr>"
          "[\<lparr>x_of = 10, y_of = 0, pressure_of = Some 1\<rparr>]" "[121, 85, 61]"]
        fallback_rendering [of futureSession "the (currentBrush futureSession)" "\<lambda>k. 1/2"
          exampleSurface "\<lparr>x_of = 0, y_of = 0, pressure_of = Some 1\<rparr>"
          "[\<lparr>x_of = 10, y_of = 0, pressure_of = Some 1\<rparr>]" "[121, 85, 61]"]
  by (simp add: stippleSession_def futureSession_def twoPoints_def toColorStr_def component_def
        Let_def exampleSurface_def)


lemma widths_append: "widths (xs @ ys) = widths xs @ widths ys"
  by (induction xs rule: widths.induct) simp_all

lemma arcs_append: "arcs (xs @ ys) = arcs xs @ arcs ys"
  by (induction xs rule: arcs.induct) simp_all



lemma pressureOr1_const:
  assumes "pressure_of pt = Some pr" and "pr \<noteq> 0"
  shows "pressureOr1 pt = pr"
  using assms by (simp add: pressureOr1_def)





lemma foldl_add_sum_list:
  "foldl (\<lambda>acc i. acc + f i) a js = a + sum_list (map f js)"
  by (induction js arbitrary: a) (simp_all add: add.assoc)

lemma totalLength_travelled:
  assumes "1 \<le> length points"
  shows "totalLength points = travelled points (length points - 1)"
proof -
  have "Suc (length points - 1) = length points" using assms by simp
  then show ?thesis
    by (simp only: totalLength_def travelled_def foldl_add_sum_list add_0)
qed

lemma taperLoop_Cons_widths:
  "widths (taperLoop points size' ps totalLen cur (i # js))
     = taperWidth size' ps totalLen (pressureOr1 (points ! i)) (cur + segmentLength points i)
       # widths (taperLoop points size' ps totalLen (cur + segmentLength points i) js)"
  by (simp add: Let_def taperWidth_def)

lemma widths_taperLoop_append:
  "widths (taperLoop points size' ps totalLen cur (js @ ks))
     = widths (taperLoop points size' ps totalLen cur js)
       @ widths (taperLoop points size' ps totalLen
                   (cur + sum_list (map (segmentLength points) js)) ks)"
proof (induction js arbitrary: cur)
  case Nil
  show ?case by simp
next
  case (Cons i js)
  show ?case
    by (simp only: append_Cons taperLoop_Cons_widths Cons.IH list.map sum_list.Cons add.assoc)
qed

lemma widths_taperLoop:
  "widths (taperLoop points size' ps totalLen 0 [1..<m])
     = map (\<lambda>i. taperWidth size' ps totalLen (pressureOr1 (points ! i)) (travelled points i))
           [1..<m]"
proof (induction m)
  case 0
  show ?case by simp
next
  case (Suc k)
  show ?case
  proof (cases "k = 0")
    case True
    then show ?thesis by simp
  next
    case False
    then have split: "[1..<Suc k] = [1..<k] @ [k]" by simp
    have tr: "0 + sum_list (map (segmentLength points) [1..<k]) + segmentLength points k
                = travelled points k"
      using False by (simp add: travelled_def)
    have one: "widths (taperLoop points size' ps totalLen
                  (0 + sum_list (map (segmentLength points) [1..<k])) [k])
               = [taperWidth size' ps totalLen (pressureOr1 (points ! k)) (travelled points k)]"
      by (simp only: taperLoop_Cons_widths tr taperLoop.simps(1) widths.simps(1))
    show ?thesis
      by (simp only: split widths_taperLoop_append Suc.IH one map_append list.map)
  qed
qed

lemma widths_microblade:
  assumes "2 \<le> length points"
  shows "widths (applyMicrobladeNatural points colorStr size' opacity spacing ps)
     = map (\<lambda>i. taperWidth size' ps (totalLength points) (pressureOr1 (points ! i))
                  (travelled points i))
           [1..<length points]"
  using assms
  by (simp add: applyMicrobladeNatural_def widths_append
        widths_taperLoop [unfolded One_nat_def])

lemma taperWidth_Num:
  assumes "totalLen \<noteq> 0"
  shows "taperWidth size' ps totalLen pressure cur
     = Num (size' * (4 * (cur / totalLen) * (1 - cur / totalLen)) * (1 + (pressure - 0.5) * ps))"
  using assms by (simp add: taperWidth_def lift_def)

lemma taperWidth_NaN: "taperWidth size' ps 0 pressure cur = NaN"
  by (simp add: taperWidth_def lift_def)

lemma parabola_le_1: "4 * p * (1 - p) \<le> (1::real)"
proof -
  have "0 \<le> (1 - 2 * p)\<^sup>2" by simp
  also have "(1 - 2 * p)\<^sup>2 = 1 - 4 * p * (1 - p)" by (simp add: power2_eq_square algebra_simps)
  finally show ?thesis by simp
qed


lemma segmentLength_nonneg: "0 \<le> segmentLength points i"
  by (simp add: segmentLength_def Let_def)

lemma travelled_nonneg: "0 \<le> travelled points i"
  unfolding travelled_def by (rule sum_list_nonneg) (auto simp: segmentLength_nonneg)

lemma travelled_mono:
  assumes "i \<le> m"
  shows "travelled points i \<le> travelled points m"
  using assms
proof (induction m)
  case 0
  then show ?case by simp
next
  case (Suc m)
  show ?case
  proof (cases "i = Suc m")
    case True
    then show ?thesis by simp
  next
    case False
    with Suc.prems have "i \<le> m" by simp
    then have "travelled points i \<le> travelled points m" by (rule Suc.IH)
    also have "\<dots> \<le> travelled points (Suc m)"
      using segmentLength_nonneg [of points "Suc m"] by (simp add: travelled_def)
    finally show ?thesis .
  qed
qed

text \<open>
  When the total length is 0 the travelled length is 0 at every sample, so the quotient
  the tapered brush forms is 0/0.
\<close>

lemma travelled_zero_when_total_zero:
  assumes "1 \<le> length points" and "totalLength points = 0" and "i < length points"
  shows "travelled points i = 0"
proof -
  have "travelled points i \<le> travelled points (length points - 1)"
    using assms(3) by (intro travelled_mono) simp
  also have "\<dots> = 0" using assms(1,2) by (simp add: totalLength_travelled)
  finally show ?thesis using travelled_nonneg [of points i] by simp
qed

lemma sqrt_25: "sqrt 25 = 5"
  by (rule real_sqrt_unique) simp_all

text \<open>
  C5 as stated: for a tapered render of at least two samples the width at the first and
  at the last sample is 0.  On three samples the brush assigns only two widths, 1.45 at
  the second sample and 0 at the third, and none for the first sample; on a stroke of two
  coincident samples the width assigned at the last sample is NaN, not 0.
\<close>

theorem taper_ends_counterexample:
  "widths (applyMicrobladeNatural threePoints (Rgba (Some 121) (Some 85) (Some 61) 1)
             1 (19/20) (1/50) (9/10)) = [Num (29/20), Num 0]
 \<and> widths (applyMicrobladeNatural tapTwice (Rgba (Some 121) (Some 85) (Some 61) 1)
             1 (19/20) (1/50) (9/10)) = [NaN]"
  by (simp add: applyMicrobladeNatural_def threePoints_def tapTwice_def totalLength_def
        segmentLength_def Let_def lift_def pressureOr1_def sqrt_25 widths_append)

text \<open>
  C5 as amended.  For a tapered render of a stroke with at least two samples, positive
  total length and the same non-zero pressure at every sample: the brush assigns one
  width per sample from the second on (none for the first sample), namely
  \<open>size * (4 * p * (1 - p)) * (1 + (pressure - 0.5) * pressureSensitivity)\<close> with \<open>p\<close>
  the length travelled up to the sample over the total length; the width at the last
  sample is 0; and when \<open>size * (1 + (pressure - 0.5) * pressureSensitivity)\<close> is not
  negative, no assigned width exceeds that value, which is the width at any sample with
  \<open>p = 1/2\<close>.
\<close>

theorem taper_widths:
  assumes "2 \<le> length points"
      and "\<forall>pt \<in> set points. pressure_of pt = Some pr" and "pr \<noteq> 0"
      and "0 < totalLength points"
  shows "widths (applyMicrobladeNatural points colorStr size' opacity spacing ps)
           = map (\<lambda>i. Num (size' * (4 * (travelled points i / totalLength points)
                                       * (1 - travelled points i / totalLength points))
                            * (1 + (pr - 0.5) * ps)))
                 [1..<length points]
       \<and> last (widths (applyMicrobladeNatural points colorStr size' opacity spacing ps)) = Num 0
       \<and> (0 \<le> size' * (1 + (pr - 0.5) * ps) \<longrightarrow>
            (\<forall>w \<in> set (widths (applyMicrobladeNatural points colorStr size' opacity spacing ps)).
               \<exists>v. w = Num v \<and> v \<le> size' * (1 + (pr - 0.5) * ps)))
       \<and> (\<forall>i. 1 \<le> i \<and> i < length points
                \<and> travelled points i / totalLength points = 1/2 \<longrightarrow>
              widths (applyMicrobladeNatural points colorStr size' opacity spacing ps) ! (i - 1)
                = Num (size' * (1 + (pr - 0.5) * ps)))"
proof -
  let ?n = "length points"
  let ?T = "totalLength points"
  let ?g = "\<lambda>i. Num (size' * (4 * (travelled points i / ?T) * (1 - travelled points i / ?T))
                      * (1 + (pr - 0.5) * ps))"
  let ?ws = "widths (applyMicrobladeNatural points colorStr size' opacity spacing ps)"
  have T: "?T \<noteq> 0" using assms(4) by simp
  have pr: "\<And>i. i \<in> set [1..<?n] \<Longrightarrow> pressureOr1 (points ! i) = pr"
  proof -
    fix i assume "i \<in> set [1..<?n]"
    then have "points ! i \<in> set points" by simp
    then show "pressureOr1 (points ! i) = pr" using assms(2,3) pressureOr1_const by blast
  qed
  have "?ws = map (\<lambda>i. taperWidth size' ps ?T (pressureOr1 (points ! i)) (travelled points i))
                  [1..<?n]"
    using assms(1) by (rule widths_microblade)
  also have "\<dots> = map ?g [1..<?n]"
    by (rule map_cong) (simp_all add: pr taperWidth_Num [OF T])
  finally have ws: "?ws = map ?g [1..<?n]" .
  have ne: "[1..<?n] \<noteq> []" using assms(1) by (cases points) auto
  have "last (map ?g [1..<?n]) = ?g (last [1..<?n])" using ne by (rule last_map)
  also have "last [1..<?n] = ?n - 1"
    using assms(1) by (metis ne last_upt upt_eq_Nil_conv not_less)
  also have "travelled points (?n - 1) = ?T"
    using assms(1) by (simp add: totalLength_travelled)
  finally have la: "last (map ?g [1..<?n]) = Num 0" using T by simp
  have bound: "\<And>p. 0 \<le> size' * (1 + (pr - 0.5) * ps) \<Longrightarrow>
                 size' * (4 * p * (1 - p)) * (1 + (pr - 0.5) * ps)
                   \<le> size' * (1 + (pr - 0.5) * ps)"
  proof -
    fix p :: real
    assume K: "0 \<le> size' * (1 + (pr - 0.5) * ps)"
    have "(size' * (1 + (pr - 0.5) * ps)) * (4 * p * (1 - p))
            \<le> (size' * (1 + (pr - 0.5) * ps)) * 1"
      using K parabola_le_1 [of p] by (rule mult_left_mono [rotated])
    then show "size' * (4 * p * (1 - p)) * (1 + (pr - 0.5) * ps)
                 \<le> size' * (1 + (pr - 0.5) * ps)"
      by (simp add: mult.commute mult.left_commute)
  qed
  have mx: "0 \<le> size' * (1 + (pr - 0.5) * ps) \<longrightarrow>
              (\<forall>w \<in> set (map ?g [1..<?n]). \<exists>v. w = Num v \<and> v \<le> size' * (1 + (pr - 0.5) * ps))"
  proof (intro impI ballI)
    fix w
    assume K: "0 \<le> size' * (1 + (pr - 0.5) * ps)" and "w \<in> set (map ?g [1..<?n])"
    then obtain i where "w = ?g i" by auto
    then show "\<exists>v. w = Num v \<and> v \<le> size' * (1 + (pr - 0.5) * ps)"
      using bound [OF K, of "travelled points i / ?T"] by blast
  qed
  have mid: "\<forall>i. 1 \<le> i \<and> i < ?n \<and> travelled points i / ?T = 1/2 \<longrightarrow>
               map ?g [1..<?n] ! (i - 1) = Num (size' * (1 + (pr - 0.5) * ps))"
  proof (intro allI impI)
    fix i assume i: "1 \<le> i \<and> i < ?n \<and> travelled points i / ?T = 1/2"
    then have i1: "1 \<le> i" and i2: "i < ?n" and half: "travelled points i / ?T = 1/2"
      by simp_all
    have len: "i - 1 < length [1..<?n]" using i1 i2 by auto
    then have "map ?g [1..<?n] ! (i - 1) = ?g ([1..<?n] ! (i - 1))" by (rule nth_map)
    also have "[1..<?n] ! (i - 1) = i" using i1 i2 by auto
    finally show "map ?g [1..<?n] ! (i - 1) = Num (size' * (1 + (pr - 0.5) * ps))"
      by (simp add: half)
  qed
  show ?thesis unfolding ws by (intro conjI) (rule refl, rule la, rule mx, rule mid)
qed

lemma threePoints_lengths:
  "totalLength threePoints = 10" "travelled threePoints 1 = 5" "travelled threePoints 2 = 10"
  by (simp_all add: totalLength_def travelled_def threePoints_def segmentLength_def Let_def
        sqrt_25 numeral_2_eq_2)

theorem taper_widths_witness:
  "widths (applyMicrobladeNatural threePoints (Rgba (Some 121) (Some 85) (Some 61) 1)
             1 (19/20) (1/50) (9/10)) = [Num (29/20), Num 0]
 \<and> travelled threePoints 1 / totalLength threePoints = 1/2
 \<and> widths (applyMicrobladeNatural threePoints (Rgba (Some 121) (Some 85) (Some 61) 1)
             1 (19/20) (1/50) (9/10)) ! 0 = Num (1 * (1 + (1 - 0.5) * (9/10)))"
proof -
  have h1: "2 \<le> length threePoints" by (simp add: threePoints_def)
  have h2: "\<forall>pt \<in> set threePoints. pressure_of pt = Some 1" by (simp add: threePoints_def)
  have h3: "(1::real) \<noteq> 0" by simp
  have h4: "0 < totalLength threePoints" by (simp add: threePoints_lengths)
  have n: "[Suc 0..<length threePoints] = [Suc 0, 2]" by (simp add: threePoints_def upt_rec)
  show ?thesis
    using taper_widths [OF h1 h2 h3 h4, of "Rgba (Some 121) (Some 85) (Some 61) 1" 1
            "19/20" "1/50" "9/10"]
    by (simp add: n threePoints_lengths threePoints_lengths [unfolded One_nat_def])
qed

lemma shaderLoop_snoc:
  "shaderLoop rnd colorStr size' opacity spacing scatter ps p0 (pts @ [pt])
     = shaderStep rnd colorStr size' opacity spacing scatter ps
         (shaderLoop rnd colorStr size' opacity spacing scatter ps p0 pts) pt"
  by (simp add: shaderLoop_def)

lemma shaderLoop_take_Suc:
  assumes "j < length rest"
  shows "shaderLoop rnd colorStr size' opacity spacing scatter ps p0 (take (Suc j) rest)
     = shaderStep rnd colorStr size' opacity spacing scatter ps
         (shaderLoop rnd colorStr size' opacity spacing scatter ps p0 (take j rest)) (rest ! j)"
  using assms by (simp add: take_Suc_conv_app_nth shaderLoop_snoc)

lemma shaderLoop_Nil:
  "shaderLoop rnd colorStr size' opacity spacing scatter ps p0 []
     = shaderInit colorStr size' opacity p0"
  by (simp add: shaderLoop_def)

lemma shaderStep_last:
  "(lastX (shaderStep rnd colorStr size' opacity spacing scatter ps st pt) = lastX st
    \<and> lastY (shaderStep rnd colorStr size' opacity spacing scatter ps st pt) = lastY st)
 \<or> (lastX (shaderStep rnd colorStr size' opacity spacing scatter ps st pt) = x_of pt
    \<and> lastY (shaderStep rnd colorStr size' opacity spacing scatter ps st pt) = y_of pt)"
  by (simp add: shaderStep_def Let_def)

lemma shader_last_is_sample:
  "\<exists>q \<in> set (p0 # pts).
      lastX (shaderLoop rnd colorStr size' opacity spacing scatter ps p0 pts) = x_of q
    \<and> lastY (shaderLoop rnd colorStr size' opacity spacing scatter ps p0 pts) = y_of q"
proof (induction pts rule: rev_induct)
  case Nil
  show ?case by (simp add: shaderLoop_Nil shaderInit_def)
next
  case (snoc pt pts)
  then show ?case
    using shaderStep_last [of rnd colorStr size' opacity spacing scatter ps
            "shaderLoop rnd colorStr size' opacity spacing scatter ps p0 pts" pt]
    by (auto simp: shaderLoop_snoc)
qed

lemma shaderStep_last_indep:
  assumes "lastX st = lastX st'" and "lastY st = lastY st'"
  shows "lastX (shaderStep rnd colorStr size' opacity spacing scatter ps st pt)
           = lastX (shaderStep rnd' colorStr' size' opacity' spacing scatter' ps' st' pt)
       \<and> lastY (shaderStep rnd colorStr size' opacity spacing scatter ps st pt)
           = lastY (shaderStep rnd' colorStr' size' opacity' spacing scatter' ps' st' pt)"
  using assms by (simp add: shaderStep_def Let_def)

lemma shader_last_indep:
  "lastX (shaderLoop rnd colorStr size' opacity spacing scatter ps p0 pts)
     = lastX (shaderLoop rnd' colorStr' size' opacity' spacing scatter' ps' p0 pts)
 \<and> lastY (shaderLoop rnd colorStr size' opacity spacing scatter ps p0 pts)
     = lastY (shaderLoop rnd' colorStr' size' opacity' spacing scatter' ps' p0 pts)"
proof (induction pts rule: rev_induct)
  case Nil
  show ?case by (simp add: shaderLoop_Nil shaderInit_def)
next
  case (snoc pt pts)
  then show ?case
    unfolding shaderLoop_snoc by (intro shaderStep_last_indep) simp_all
qed

lemma arcs_drawDot: "arcs (drawDot x y size' color alpha) = [(x, y, size' / 2)]"
  by (simp add: drawDot_def)

lemma shaderStep_spacing0:
  "length (arcs (out (shaderStep rnd colorStr size' opacity 0 scatter ps st pt)))
     = Suc (length (arcs (out st)))"
  by (simp add: shaderStep_def Let_def arcs_append arcs_drawDot)

lemma shader_spacing0_count:
  "length (arcs (out (shaderLoop rnd colorStr size' opacity 0 scatter ps p0 pts)))
     = Suc (length pts)"
proof (induction pts rule: rev_induct)
  case Nil
  show ?case by (simp add: shaderLoop_Nil shaderInit_def arcs_drawDot)
next
  case (snoc pt pts)
  then show ?case by (simp add: shaderLoop_snoc shaderStep_spacing0)
qed

text \<open>
  C4. In a Shader render of the stroke \<open>start # rest\<close>, let \<open>before\<close> and \<open>after\<close> be the
  loop variables just before and just after sample \<open>rest ! j\<close> is visited.  If the
  Euclidean distance from the last stamped position to the sample is at least
  \<open>size * spacing\<close>, one dab is issued (at the jittered centre) and the last stamped
  position becomes the sample itself, unjittered; otherwise nothing is issued and nothing
  changes.  The last stamped position is always one of the samples and does not depend on
  the random source or on the scatter, and with spacing 0 every sample is stamped.
\<close>

theorem shader_stamping:
  assumes "j < length rest"
      and "before = shaderLoop rnd colorStr size' opacity spacing scatter ps start (take j rest)"
      and "after = shaderLoop rnd colorStr size' opacity spacing scatter ps start (take (Suc j) rest)"
      and "pt = rest ! j"
  shows "(sqrt ((x_of pt - lastX before) * (x_of pt - lastX before)
               + (y_of pt - lastY before) * (y_of pt - lastY before)) \<ge> size' * spacing \<longrightarrow>
            out after = out before
              @ drawDot (x_of pt + (rnd (rpos before) - 0.5) * scatter * size' * 2)
                        (y_of pt + (rnd (rpos before + 1) - 0.5) * scatter * size' * 2)
                        (size' * (1 + (pressureOr1 pt - 0.5) * ps)) colorStr
                        (opacity * pressureOr1 pt)
          \<and> lastX after = x_of pt \<and> lastY after = y_of pt)
       \<and> (\<not> sqrt ((x_of pt - lastX before) * (x_of pt - lastX before)
               + (y_of pt - lastY before) * (y_of pt - lastY before)) \<ge> size' * spacing \<longrightarrow>
            after = before)
       \<and> (\<exists>q \<in> set (start # take j rest). lastX before = x_of q \<and> lastY before = y_of q)
       \<and> lastX (shaderLoop rnd' colorStr size' opacity spacing scatter' ps start (take j rest))
            = lastX before
       \<and> lastY (shaderLoop rnd' colorStr size' opacity spacing scatter' ps start (take j rest))
            = lastY before
       \<and> (spacing = 0 \<longrightarrow>
            length (arcs (applyShaderBrush rnd (start # rest) colorStr size' opacity spacing
                            scatter ps)) = length (start # rest))"
proof -
  have step: "after = shaderStep rnd colorStr size' opacity spacing scatter ps before pt"
    using assms by (simp add: shaderLoop_take_Suc)
  have c1: "sqrt ((x_of pt - lastX before) * (x_of pt - lastX before)
               + (y_of pt - lastY before) * (y_of pt - lastY before)) \<ge> size' * spacing \<longrightarrow>
            out after = out before
              @ drawDot (x_of pt + (rnd (rpos before) - 0.5) * scatter * size' * 2)
                        (y_of pt + (rnd (rpos before + 1) - 0.5) * scatter * size' * 2)
                        (size' * (1 + (pressureOr1 pt - 0.5) * ps)) colorStr
                        (opacity * pressureOr1 pt)
          \<and> lastX after = x_of pt \<and> lastY after = y_of pt"
    unfolding step by (simp add: shaderStep_def Let_def)
  have c2: "\<not> sqrt ((x_of pt - lastX before) * (x_of pt - lastX before)
               + (y_of pt - lastY before) * (y_of pt - lastY before)) \<ge> size' * spacing \<longrightarrow>
            after = before"
    unfolding step by (simp add: shaderStep_def Let_def)
  have c3: "\<exists>q \<in> set (start # take j rest). lastX before = x_of q \<and> lastY before = y_of q"
    unfolding assms(2) by (rule shader_last_is_sample)
  have c45: "lastX (shaderLoop rnd' colorStr size' opacity spacing scatter' ps start (take j rest))
            = lastX before
       \<and> lastY (shaderLoop rnd' colorStr size' opacity spacing scatter' ps start (take j rest))
            = lastY before"
    unfolding assms(2) by (rule shader_last_indep)
  have c6: "spacing = 0 \<longrightarrow>
            length (arcs (applyShaderBrush rnd (start # rest) colorStr size' opacity spacing
                            scatter ps)) = length (start # rest)"
    by (simp add: applyShaderBrush_def shader_spacing0_count)
  from c1 c2 c3 c45 c6 show ?thesis by blast
qed


theorem shader_stamping_witness:
  "shaderLoop (\<lambda>k. 1/2) (Rgba (Some 121) (Some 85) (Some 61) 1) 10 (4/5) (3/5) (1/10) (4/5)
      \<lparr>x_of = 0, y_of = 0, pressure_of = Some 1\<rparr>
      (take 1 [\<lparr>x_of = 5, y_of = 0, pressure_of = Some 1\<rparr>,
               \<lparr>x_of = 10, y_of = 0, pressure_of = Some 1\<rparr>])
   = shaderInit (Rgba (Some 121) (Some 85) (Some 61) 1) 10 (4/5)
       \<lparr>x_of = 0, y_of = 0, pressure_of = Some 1\<rparr>
 \<and> lastX (shaderLoop (\<lambda>k. 1/2) (Rgba (Some 121) (Some 85) (Some 61) 1) 10 (4/5) (3/5) (1/10)
      (4/5) \<lparr>x_of = 0, y_of = 0, pressure_of = Some 1\<rparr>
      (take 2 [\<lparr>x_of = 5, y_of = 0, pressure_of = Some 1\<rparr>,
               \<lparr>x_of = 10, y_of = 0, pressure_of = Some 1\<rparr>])) = 10"
proof -
  let ?C = "Rgba (Some 121) (Some 85) (Some 61) 1"
  let ?p0 = "\<lparr>x_of = 0, y_of = 0, pressure_of = Some 1\<rparr>"
  let ?p1 = "\<lparr>x_of = 5, y_of = 0, pressure_of = Some 1\<rparr>"
  let ?p2 = "\<lparr>x_of = 10, y_of = 0, pressure_of = Some 1\<rparr>"
  have far0: "\<not> sqrt ((x_of ?p1 - 0) * (x_of ?p1 - 0) + (y_of ?p1 - 0) * (y_of ?p1 - 0))
                  \<ge> 10 * (3/5)"
    by (simp add: gate_iff)
  have first: "shaderLoop (\<lambda>k. 1/2) ?C 10 (4/5) (3/5) (1/10) (4/5) ?p0 [?p1]
                 = shaderInit ?C 10 (4/5) ?p0"
    using shader_stamping [where j = 0 and rest = "[?p1, ?p2]" and rnd = "\<lambda>k. 1/2"
            and colorStr = ?C and size' = 10 and opacity = "4/5" and spacing = "3/5"
            and scatter = "1/10" and ps = "4/5" and start = ?p0
            and rnd' = "\<lambda>k. 0" and scatter' = 0, OF _ refl refl refl] far0
    by (simp add: shaderLoop_Nil shaderInit_def)
  have far1: "sqrt ((x_of ?p2 - 0) * (x_of ?p2 - 0) + (y_of ?p2 - 0) * (y_of ?p2 - 0))
                \<ge> 10 * (3/5)"
    by (simp add: gate_iff)
  have second: "lastX (shaderLoop (\<lambda>k. 1/2) ?C 10 (4/5) (3/5) (1/10) (4/5) ?p0
                         (take 2 [?p1, ?p2])) = 10"
    using shader_stamping [where j = 1 and rest = "[?p1, ?p2]" and rnd = "\<lambda>k. 1/2"
            and colorStr = ?C and size' = 10 and opacity = "4/5" and spacing = "3/5"
            and scatter = "1/10" and ps = "4/5" and start = ?p0
            and rnd' = "\<lambda>k. 0" and scatter' = 0, OF _ refl refl refl] far1 first
    by (simp add: shaderInit_def numeral_2_eq_2)
  from first second show ?thesis by simp
qed

lemma shaderStep_count:
  "length (arcs (out (shaderStep rnd colorStr size' opacity spacing scatter ps st pt)))
     = length (arcs (out st)) + gated (size' * spacing) (lastX st) (lastY st) [pt]"
  by (simp add: shaderStep_def Let_def arcs_append arcs_drawDot)

lemma shader_fold_count:
  "length (arcs (out (foldl (shaderStep rnd colorStr size' opacity spacing scatter ps) st pts)))
     = length (arcs (out st)) + gated (size' * spacing) (lastX st) (lastY st) pts"
proof (induction pts arbitrary: st)
  case Nil
  show ?case by simp
next
  case (Cons pt pts)
  show ?case
    by (simp add: Cons.IH) (simp add: shaderStep_def Let_def arcs_append arcs_drawDot)
qed

lemma shader_count:
  "length (arcs (applyShaderBrush rnd (p0 # rest) colorStr size' opacity spacing scatter ps))
     = Suc (gated (size' * spacing) (x_of p0) (y_of p0) rest)"
  by (simp add: applyShaderBrush_def shaderLoop_def shader_fold_count)
     (simp add: shaderInit_def arcs_drawDot)

lemma gated_le_length: "gated d a b pts \<le> length pts"
  by (induction pts arbitrary: a b) (auto simp: le_SucI)

lemma gated_0: "gated 0 a b pts = length pts"
  by (induction pts arbitrary: a b) simp_all

lemma dist_on_line:
  assumes "t \<le> s"
  shows "sqrt ((cx + s * u - (cx + t * u)) * (cx + s * u - (cx + t * u))
             + (cy + s * v - (cy + t * v)) * (cy + s * v - (cy + t * v)))
           = (s - t) * sqrt (u * u + v * v)"
proof -
  have "(cx + s * u - (cx + t * u)) * (cx + s * u - (cx + t * u))
          + (cy + s * v - (cy + t * v)) * (cy + s * v - (cy + t * v))
        = ((s - t) * (s - t)) * (u * u + v * v)"
    by (simp add: algebra_simps)
  then have "sqrt ((cx + s * u - (cx + t * u)) * (cx + s * u - (cx + t * u))
                 + (cy + s * v - (cy + t * v)) * (cy + s * v - (cy + t * v)))
             = sqrt ((s - t) * (s - t)) * sqrt (u * u + v * v)"
    by (simp only: real_sqrt_mult)
  also have "sqrt ((s - t) * (s - t)) = s - t" using assms by simp
  finally show ?thesis .
qed


lemma gate_on_line:
  assumes "t \<le> s"
  shows "(d \<le> sqrt ((cx + s * u - (cx + t * u)) * (cx + s * u - (cx + t * u))
                   + (cy + s * v - (cy + t * v)) * (cy + s * v - (cy + t * v))))
         = (d \<le> (s - t) * sqrt (u * u + v * v))"
  using dist_on_line [OF assms] by simp

lemma gated_line_mono:
  assumes d: "d1 \<le> d2"
  shows "(\<forall>p \<in> set pts. x_of p = cx + along p * u \<and> y_of p = cy + along p * v
                         \<and> t1 \<le> along p \<and> t2 \<le> along p)
     \<Longrightarrow> sorted (map along pts)
     \<Longrightarrow> (t1 \<le> t2 \<longrightarrow> gated d2 (cx + t2 * u) (cy + t2 * v) pts
                         \<le> gated d1 (cx + t1 * u) (cy + t1 * v) pts)
       \<and> gated d2 (cx + t2 * u) (cy + t2 * v) pts
           \<le> Suc (gated d1 (cx + t1 * u) (cy + t1 * v) pts)"
proof (induction pts arbitrary: t1 t2)
  case Nil
  show ?case by simp
next
  case (Cons p pts)
  let ?s = "along p"
  let ?L = "sqrt (u * u + v * v)"
  have px: "x_of p = cx + ?s * u" and py: "y_of p = cy + ?s * v"
    and t1: "t1 \<le> ?s" and t2: "t2 \<le> ?s"
    using Cons.prems(1) by simp_all
  have L: "0 \<le> ?L" by simp
  have rest: "\<forall>q \<in> set pts. x_of q = cx + along q * u \<and> y_of q = cy + along q * v"
    using Cons.prems(1) by simp
  have above: "\<forall>q \<in> set pts. ?s \<le> along q"
    using Cons.prems(2) by simp
  have low1: "\<forall>q \<in> set pts. t1 \<le> along q" and low2: "\<forall>q \<in> set pts. t2 \<le> along q"
    using Cons.prems(1) by simp_all
  have srt: "sorted (map along pts)" using Cons.prems(2) by simp
  have g1: "gated d1 (cx + t1 * u) (cy + t1 * v) (p # pts)
              = (if d1 \<le> (?s - t1) * ?L then Suc (gated d1 (cx + ?s * u) (cy + ?s * v) pts)
                 else gated d1 (cx + t1 * u) (cy + t1 * v) pts)"
    by (simp only: gated.simps px py gate_on_line [OF t1])
  have g2: "gated d2 (cx + t2 * u) (cy + t2 * v) (p # pts)
              = (if d2 \<le> (?s - t2) * ?L then Suc (gated d2 (cx + ?s * u) (cy + ?s * v) pts)
                 else gated d2 (cx + t2 * u) (cy + t2 * v) pts)"
    by (simp only: gated.simps px py gate_on_line [OF t2])
  have ih_ss: "gated d2 (cx + ?s * u) (cy + ?s * v) pts \<le> gated d1 (cx + ?s * u) (cy + ?s * v) pts"
    using Cons.IH [of ?s ?s] rest above srt by simp
  have ih_1s: "gated d2 (cx + ?s * u) (cy + ?s * v) pts \<le> gated d1 (cx + t1 * u) (cy + t1 * v) pts"
    using Cons.IH [of t1 ?s] rest above low1 srt t1 by simp
  have ih_s2: "gated d2 (cx + t2 * u) (cy + t2 * v) pts
                 \<le> Suc (gated d1 (cx + ?s * u) (cy + ?s * v) pts)"
    using Cons.IH [of ?s t2] rest above low2 srt by simp
  have ih_12: "gated d2 (cx + t2 * u) (cy + t2 * v) pts
                 \<le> Suc (gated d1 (cx + t1 * u) (cy + t1 * v) pts)"
    using Cons.IH [of t1 t2] rest low1 low2 srt by simp
  have ih_12': "t1 \<le> t2 \<Longrightarrow> gated d2 (cx + t2 * u) (cy + t2 * v) pts
                 \<le> gated d1 (cx + t1 * u) (cy + t1 * v) pts"
    using Cons.IH [of t1 t2] rest low1 low2 srt by simp
  have imp: "t1 \<le> t2 \<Longrightarrow> d2 \<le> (?s - t2) * ?L \<Longrightarrow> d1 \<le> (?s - t1) * ?L"
  proof -
    assume "t1 \<le> t2" and "d2 \<le> (?s - t2) * ?L"
    have "(?s - t2) * ?L \<le> (?s - t1) * ?L"
      using \<open>t1 \<le> t2\<close> L by (intro mult_right_mono) simp_all
    with \<open>d2 \<le> (?s - t2) * ?L\<close> d show "d1 \<le> (?s - t1) * ?L" by linarith
  qed
  have A: "t1 \<le> t2 \<longrightarrow> gated d2 (cx + t2 * u) (cy + t2 * v) (p # pts)
                         \<le> gated d1 (cx + t1 * u) (cy + t1 * v) (p # pts)"
    unfolding g1 g2 using imp ih_ss ih_s2 ih_12' by auto
  have B: "gated d2 (cx + t2 * u) (cy + t2 * v) (p # pts)
             \<le> Suc (gated d1 (cx + t1 * u) (cy + t1 * v) (p # pts))"
    unfolding g1 g2 using ih_ss ih_1s ih_s2 ih_12 by auto
  from A B show ?case by blast
qed


text \<open>
  C7 as stated: for a fixed stroke and size the number of Shader dabs never grows when the
  spacing grows.  On the stroke through x = 0, 5, 9, 1, 9 with size 10, spacing 0.5
  stamps 2 dabs (the stamp at 5 is within 5 of every later sample) and the larger spacing
  0.6 stamps 4.
\<close>

theorem shader_count_counterexample:
  "length (arcs (applyShaderBrush (\<lambda>k. 1/2) zigzag (Rgba (Some 121) (Some 85) (Some 61) 1)
                   10 (4/5) (1/2) (1/10) (4/5))) = 2
 \<and> length (arcs (applyShaderBrush (\<lambda>k. 1/2) zigzag (Rgba (Some 121) (Some 85) (Some 61) 1)
                   10 (4/5) (3/5) (1/10) (4/5))) = 4"
  by (simp add: zigzag_def shader_count gate_iff)

text \<open>
  C7 as amended.  For a fixed stroke and size, spacing 0 stamps every sample and no
  spacing stamps more dabs than spacing 0 does; and when the samples of the stroke advance
  monotonically along a straight line and the size is not negative, the number of dabs is
  non-increasing in the spacing.
\<close>

theorem shader_count_spacing:
  "length (arcs (applyShaderBrush rnd (start # rest) colorStr size' opacity 0 scatter ps))
     = length (start # rest)
 \<and> length (arcs (applyShaderBrush rnd (start # rest) colorStr size' opacity s scatter ps))
     \<le> length (arcs (applyShaderBrush rnd' (start # rest) colorStr size' opacity 0 scatter ps))
 \<and> (0 \<le> size' \<and> s1 \<le> s2
      \<and> (\<forall>p \<in> set (start # rest). x_of p = cx + along p * u \<and> y_of p = cy + along p * v)
      \<and> sorted (map along (start # rest)) \<longrightarrow>
     length (arcs (applyShaderBrush rnd (start # rest) colorStr size' opacity s2 scatter ps))
       \<le> length (arcs (applyShaderBrush rnd' (start # rest) colorStr size' opacity s1 scatter ps)))"
proof (intro conjI impI)
  show "length (arcs (applyShaderBrush rnd (start # rest) colorStr size' opacity 0 scatter ps))
          = length (start # rest)"
    by (simp add: shader_count gated_0)
  show "length (arcs (applyShaderBrush rnd (start # rest) colorStr size' opacity s scatter ps))
     \<le> length (arcs (applyShaderBrush rnd' (start # rest) colorStr size' opacity 0 scatter ps))"
    by (simp add: shader_count gated_0 gated_le_length)
next
  assume h: "0 \<le> size' \<and> s1 \<le> s2
      \<and> (\<forall>p \<in> set (start # rest). x_of p = cx + along p * u \<and> y_of p = cy + along p * v)
      \<and> sorted (map along (start # rest))"
  then have d: "size' * s1 \<le> size' * s2" by (simp add: mult_left_mono)
  have sx: "x_of start = cx + along start * u" and sy: "y_of start = cy + along start * v"
    using h by simp_all
  have pre: "\<forall>p \<in> set rest. x_of p = cx + along p * u \<and> y_of p = cy + along p * v
                        \<and> along start \<le> along p \<and> along start \<le> along p"
    using h by simp
  have srt: "sorted (map along rest)" using h by simp
  have "gated (size' * s2) (cx + along start * u) (cy + along start * v) rest
          \<le> gated (size' * s1) (cx + along start * u) (cy + along start * v) rest"
    using gated_line_mono [OF d pre srt] by simp
  then show "length (arcs (applyShaderBrush rnd (start # rest) colorStr size' opacity s2 scatter ps))
       \<le> length (arcs (applyShaderBrush rnd' (start # rest) colorStr size' opacity s1 scatter ps))"
    by (simp add: shader_count sx sy)
qed

theorem shader_count_spacing_witness:
  "length (arcs (applyShaderBrush (\<lambda>k. 1/2) threePoints (Rgba (Some 121) (Some 85) (Some 61) 1)
                   10 (4/5) (3/5) (1/10) (4/5))) = 2
 \<and> length (arcs (applyShaderBrush (\<lambda>k. 0) threePoints (Rgba (Some 121) (Some 85) (Some 61) 1)
                   10 (4/5) (1/2) (1/10) (4/5))) = 3
 \<and> sorted (map x_of threePoints)"
proof -
  have c2: "length (arcs (applyShaderBrush (\<lambda>k. 1/2) threePoints
              (Rgba (Some 121) (Some 85) (Some 61) 1) 10 (4/5) (3/5) (1/10) (4/5))) = 2"
    by (simp add: threePoints_def shader_count gate_iff)
  have c3: "length (arcs (applyShaderBrush (\<lambda>k. 0) threePoints
              (Rgba (Some 121) (Some 85) (Some 61) 1) 10 (4/5) (1/2) (1/10) (4/5))) = 3"
    by (simp add: threePoints_def shader_count gate_iff)
  have srt: "sorted (map x_of threePoints)" by (simp add: threePoints_def)
  have line: "\<forall>p \<in> set threePoints. x_of p = 0 + x_of p * 1 \<and> y_of p = 0 + x_of p * 0"
    by (simp add: threePoints_def)
  have "length (arcs (applyShaderBrush (\<lambda>k. 1/2) threePoints
              (Rgba (Some 121) (Some 85) (Some 61) 1) 10 (4/5) (3/5) (1/10) (4/5)))
        \<le> length (arcs (applyShaderBrush (\<lambda>k. 0) threePoints
              (Rgba (Some 121) (Some 85) (Some 61) 1) 10 (4/5) (1/2) (1/10) (4/5)))"
    using shader_count_spacing [where rnd = "\<lambda>k. 1/2" and rnd' = "\<lambda>k. 0"
            and start = "\<lparr>x_of = 0, y_of = 0, pressure_of = Some 1\<rparr>"
            and rest = "[\<lparr>x_of = 5, y_of = 0, pressure_of = Some 1\<rparr>,
                         \<lparr>x_of = 10, y_of = 0, pressure_of = Some 1\<rparr>]"
            and colorStr = "Rgba (Some 121) (Some 85) (Some 61) 1" and size' = 10
            and opacity = "4/5" and scatter = "1/10" and ps = "4/5" and s = 0
            and ?s1.0 = "1/2" and ?s2.0 = "3/5" and cx = 0 and cy = 0 and u = 1 and v = 0
            and along = x_of]
    by (simp add: threePoints_def)
  with c2 c3 srt show ?thesis by simp
qed

lemma jitter_shader:
  fixes r scatter size' :: real
  assumes "0 \<le> r" and "r < 1" and "0 \<le> scatter * size'"
  shows "\<bar>(r - 0.5) * scatter * size' * 2\<bar> \<le> scatter * size'"
proof -
  have e: "(r - 0.5) * scatter * size' * 2 = (2 * r - 1) * (scatter * size')"
    by (simp add: algebra_simps)
  have "\<bar>2 * r - 1\<bar> \<le> 1" using assms(1,2) by (simp add: abs_le_iff)
  then have "\<bar>2 * r - 1\<bar> * \<bar>scatter * size'\<bar> \<le> 1 * \<bar>scatter * size'\<bar>"
    by (rule mult_right_mono) simp
  have "\<bar>(r - 0.5) * scatter * size' * 2\<bar> = \<bar>2 * r - 1\<bar> * \<bar>scatter * size'\<bar>"
    by (simp only: e abs_mult)
  also have "\<dots> \<le> 1 * \<bar>scatter * size'\<bar>" by fact
  also have "\<dots> = scatter * size'" using assms(3) by simp
  finally show ?thesis .
qed

lemma jitter_triple:
  fixes r scatter size' :: real
  assumes "0 \<le> r" and "r < 1" and "0 \<le> scatter * size'"
  shows "\<bar>(r - 0.5) * scatter * size'\<bar> \<le> scatter * size' / 2"
proof -
  have e: "(r - 0.5) * scatter * size' = (r - 0.5) * (scatter * size')"
    by (simp add: algebra_simps)
  have "\<bar>r - 0.5\<bar> \<le> 1/2" using assms(1,2) by linarith
  then have "\<bar>r - 0.5\<bar> * \<bar>scatter * size'\<bar> \<le> 1/2 * \<bar>scatter * size'\<bar>"
    by (rule mult_right_mono) simp
  have "\<bar>(r - 0.5) * scatter * size'\<bar> = \<bar>r - 0.5\<bar> * \<bar>scatter * size'\<bar>"
    by (simp only: e abs_mult)
  also have "\<dots> \<le> 1/2 * \<bar>scatter * size'\<bar>" by fact
  also have "\<dots> = scatter * size' / 2" using assms(3) by simp
  finally show ?thesis .
qed

lemma tripleLoop_snoc:
  "tripleLoop rnd colorStr size' opacity spacing scatter ps p0 (pts @ [pt])
     = tripleStep rnd colorStr size' opacity spacing scatter ps
         (tripleLoop rnd colorStr size' opacity spacing scatter ps p0 pts) pt"
  by (simp add: tripleLoop_def)

lemma tripleLoop_Nil:
  "tripleLoop rnd colorStr size' opacity spacing scatter ps p0 []
     = tripleInit rnd colorStr size' opacity p0"
  by (simp add: tripleLoop_def)

lemma tripleLoop_take_Suc:
  assumes "j < length rest"
  shows "tripleLoop rnd colorStr size' opacity spacing scatter ps p0 (take (Suc j) rest)
     = tripleStep rnd colorStr size' opacity spacing scatter ps
         (tripleLoop rnd colorStr size' opacity spacing scatter ps p0 (take j rest)) (rest ! j)"
  using assms by (simp add: take_Suc_conv_app_nth tripleLoop_snoc)

lemma arcs_drawTripleDot:
  "arcs (drawTripleDot r x y size' color alpha)
     = [(x, y, size' / 2),
        (x + cos (r * pi * 2) * (size' * 0.6), y + sin (r * pi * 2) * (size' * 0.6),
         size' * 0.8 / 2),
        (x + cos (r * pi * 2 + pi * 2 / 3) * (size' * 0.6),
         y + sin (r * pi * 2 + pi * 2 / 3) * (size' * 0.6), size' * 0.8 / 2)]"
  by (simp add: drawTripleDot_def Let_def arcs_append arcs_drawDot)

text \<open>One iteration of the Shader loop adds no circle, or one whose centre is the sample
  moved by a bounded offset on each axis.\<close>

lemma shaderStep_jitter:
  assumes "\<forall>k. 0 \<le> rnd k \<and> rnd k < 1" and "0 \<le> scatter * size'"
  shows "shaderStep rnd colorStr size' opacity spacing scatter ps st pt = st
       \<or> (\<exists>jx jy. \<bar>jx\<bar> \<le> scatter * size' \<and> \<bar>jy\<bar> \<le> scatter * size'
            \<and> arcs (out (shaderStep rnd colorStr size' opacity spacing scatter ps st pt))
                = arcs (out st)
                  @ [(x_of pt + jx, y_of pt + jy,
                      size' * (1 + (pressureOr1 pt - 0.5) * ps) / 2)])"
proof (cases "sqrt ((x_of pt - lastX st) * (x_of pt - lastX st)
                    + (y_of pt - lastY st) * (y_of pt - lastY st)) \<ge> size' * spacing")
  case False
  then show ?thesis by (simp add: shaderStep_def Let_def)
next
  case True
  let ?jx = "(rnd (rpos st) - 0.5) * scatter * size' * 2"
  let ?jy = "(rnd (rpos st + 1) - 0.5) * scatter * size' * 2"
  have "\<bar>?jx\<bar> \<le> scatter * size'"
    using assms by (intro jitter_shader) auto
  moreover have "\<bar>?jy\<bar> \<le> scatter * size'"
    using assms by (intro jitter_shader) auto
  moreover have "arcs (out (shaderStep rnd colorStr size' opacity spacing scatter ps st pt))
                = arcs (out st)
                  @ [(x_of pt + ?jx, y_of pt + ?jy,
                      size' * (1 + (pressureOr1 pt - 0.5) * ps) / 2)]"
    using True by (simp add: shaderStep_def Let_def arcs_append arcs_drawDot)
  ultimately show ?thesis by blast
qed

lemma tripleStep_jitter:
  assumes "\<forall>k. 0 \<le> rnd k \<and> rnd k < 1" and "0 \<le> scatter * size'"
  shows "tripleStep rnd colorStr size' opacity spacing scatter ps st pt = st
       \<or> (\<exists>jx jy sa sb. \<bar>jx\<bar> \<le> scatter * size' / 2 \<and> \<bar>jy\<bar> \<le> scatter * size' / 2
            \<and> arcs (out (tripleStep rnd colorStr size' opacity spacing scatter ps st pt))
                = arcs (out st)
                  @ [(x_of pt + jx, y_of pt + jy,
                      size' * (1 + (pressureOr1 pt - 0.5) * ps) / 2), sa, sb])"
proof (cases "sqrt ((x_of pt - lastX st) * (x_of pt - lastX st)
                    + (y_of pt - lastY st) * (y_of pt - lastY st)) \<ge> size' * spacing")
  case False
  then show ?thesis by (simp add: tripleStep_def Let_def)
next
  case True
  let ?jx = "(rnd (rpos st) - 0.5) * scatter * size'"
  let ?jy = "(rnd (rpos st + 1) - 0.5) * scatter * size'"
  have "\<bar>?jx\<bar> \<le> scatter * size' / 2"
    using assms by (intro jitter_triple) auto
  moreover have "\<bar>?jy\<bar> \<le> scatter * size' / 2"
    using assms by (intro jitter_triple) auto
  moreover have "arcs (out (tripleStep rnd colorStr size' opacity spacing scatter ps st pt))
                = arcs (out st)
                  @ arcs (drawTripleDot (rnd (rpos st + 2)) (x_of pt + ?jx) (y_of pt + ?jy)
                            (size' * (1 + (pressureOr1 pt - 0.5) * ps)) colorStr
                            (opacity * pressureOr1 pt))"
    using True by (simp add: tripleStep_def Let_def arcs_append)
  ultimately show ?thesis unfolding arcs_drawTripleDot by blast
qed


lemma centres_triples: "centres (triples cs) = map fst cs"
  by (induction cs) (auto simp: triples_def)

lemma triples_snoc: "triples (cs @ [(c, a, b)]) = triples cs @ [c, a, b]"
  by (simp add: triples_def)

lemma shader_arcs_near:
  assumes "\<forall>k. 0 \<le> rnd k \<and> rnd k < 1" and "0 \<le> scatter * size'"
  shows "\<forall>(x, y, r) \<in> set (arcs (out (shaderLoop rnd colorStr size' opacity spacing scatter ps
                                          p0 pts))).
           \<exists>q \<in> set (p0 # pts). \<bar>x - x_of q\<bar> \<le> scatter * size' \<and> \<bar>y - y_of q\<bar> \<le> scatter * size'"
proof (induction pts rule: rev_induct)
  case Nil
  show ?case using assms(2) by (simp add: shaderLoop_Nil shaderInit_def arcs_drawDot)
next
  case (snoc pt pts)
  let ?st = "shaderLoop rnd colorStr size' opacity spacing scatter ps p0 pts"
  from shaderStep_jitter [OF assms, of colorStr opacity spacing ps ?st pt]
  show ?case
  proof
    assume "shaderStep rnd colorStr size' opacity spacing scatter ps ?st pt = ?st"
    then show ?thesis using snoc.IH by (fastforce simp: shaderLoop_snoc)
  next
    assume "\<exists>jx jy. \<bar>jx\<bar> \<le> scatter * size' \<and> \<bar>jy\<bar> \<le> scatter * size'
            \<and> arcs (out (shaderStep rnd colorStr size' opacity spacing scatter ps ?st pt))
                = arcs (out ?st)
                  @ [(x_of pt + jx, y_of pt + jy,
                      size' * (1 + (pressureOr1 pt - 0.5) * ps) / 2)]"
    then obtain jx jy where j: "\<bar>jx\<bar> \<le> scatter * size'" "\<bar>jy\<bar> \<le> scatter * size'"
      and a: "arcs (out (shaderStep rnd colorStr size' opacity spacing scatter ps ?st pt))
                = arcs (out ?st)
                  @ [(x_of pt + jx, y_of pt + jy,
                      size' * (1 + (pressureOr1 pt - 0.5) * ps) / 2)]"
      by blast
    show ?thesis
      unfolding shaderLoop_snoc a using snoc.IH j by fastforce
  qed
qed

lemma triple_arcs_near:
  assumes "\<forall>k. 0 \<le> rnd k \<and> rnd k < 1" and "0 \<le> scatter * size'"
  shows "\<exists>cs. arcs (out (tripleLoop rnd colorStr size' opacity spacing scatter ps p0 pts))
                = triples cs
            \<and> (\<forall>((x, y, r), a, b) \<in> set cs.
                  \<exists>q \<in> set (p0 # pts). \<bar>x - x_of q\<bar> \<le> scatter * size' / 2
                                       \<and> \<bar>y - y_of q\<bar> \<le> scatter * size' / 2)"
proof (induction pts rule: rev_induct)
  case Nil
  have "arcs (out (tripleLoop rnd colorStr size' opacity spacing scatter ps p0 []))
          = triples [((x_of p0, y_of p0, size' / 2),
               (x_of p0 + cos (rnd 0 * pi * 2) * (size' * 0.6),
                y_of p0 + sin (rnd 0 * pi * 2) * (size' * 0.6), size' * 0.8 / 2),
               (x_of p0 + cos (rnd 0 * pi * 2 + pi * 2 / 3) * (size' * 0.6),
                y_of p0 + sin (rnd 0 * pi * 2 + pi * 2 / 3) * (size' * 0.6), size' * 0.8 / 2))]"
    by (simp add: tripleLoop_Nil tripleInit_def arcs_drawTripleDot triples_def)
  then show ?case using assms(2) by fastforce
next
  case (snoc pt pts)
  let ?st = "tripleLoop rnd colorStr size' opacity spacing scatter ps p0 pts"
  obtain cs where cs: "arcs (out ?st) = triples cs"
    and near: "\<forall>((x, y, r), a, b) \<in> set cs.
                  \<exists>q \<in> set (p0 # pts). \<bar>x - x_of q\<bar> \<le> scatter * size' / 2
                                       \<and> \<bar>y - y_of q\<bar> \<le> scatter * size' / 2"
    using snoc.IH by blast
  from tripleStep_jitter [OF assms, of colorStr opacity spacing ps ?st pt]
  show ?case
  proof
    assume "tripleStep rnd colorStr size' opacity spacing scatter ps ?st pt = ?st"
    then show ?thesis using cs near by (fastforce simp: tripleLoop_snoc)
  next
    assume "\<exists>jx jy sa sb. \<bar>jx\<bar> \<le> scatter * size' / 2 \<and> \<bar>jy\<bar> \<le> scatter * size' / 2
            \<and> arcs (out (tripleStep rnd colorStr size' opacity spacing scatter ps ?st pt))
                = arcs (out ?st)
                  @ [(x_of pt + jx, y_of pt + jy,
                      size' * (1 + (pressureOr1 pt - 0.5) * ps) / 2), sa, sb]"
    then obtain jx jy sa sb
      where j: "\<bar>jx\<bar> \<le> scatter * size' / 2" "\<bar>jy\<bar> \<le> scatter * size' / 2"
      and a: "arcs (out (tripleStep rnd colorStr size' opacity spacing scatter ps ?st pt))
                = arcs (out ?st)
                  @ [(x_of pt + jx, y_of pt + jy,
                      size' * (1 + (pressureOr1 pt - 0.5) * ps) / 2), sa, sb]"
      by blast
    let ?c = "(x_of pt + jx, y_of pt + jy, size' * (1 + (pressureOr1 pt - 0.5) * ps) / 2)"
    have "arcs (out (tripleLoop rnd colorStr size' opacity spacing scatter ps p0 (pts @ [pt])))
            = triples (cs @ [(?c, sa, sb)])"
      by (simp only: tripleLoop_snoc a cs triples_snoc)
    moreover have "\<forall>((x, y, r), a, b) \<in> set (cs @ [(?c, sa, sb)]).
                  \<exists>q \<in> set (p0 # pts @ [pt]). \<bar>x - x_of q\<bar> \<le> scatter * size' / 2
                                              \<and> \<bar>y - y_of q\<bar> \<le> scatter * size' / 2"
      using near j by fastforce
    ultimately show ?thesis by blast
  qed
qed


text \<open>
  C6. With every value of the random source in [0,1) and \<open>scatter * size\<close> not negative:
  each dab of a Shader render is centred within \<open>scatter * size\<close>, on each axis, of a
  sample of the stroke, and each centre dab of a 3RS (triple-point) render within
  \<open>scatter * size / 2\<close>; more precisely, an iteration of either loop stamps nothing or
  stamps at the visited sample moved by an offset that is bounded so on each axis.  With
  \<open>scatter = 0\<close> the centres are the samples themselves.
\<close>

theorem jitter_bounds:
  assumes "\<forall>k. 0 \<le> rnd k \<and> rnd k < 1" and "0 \<le> scatter * size'"
  shows "(\<forall>(x, y, r) \<in> set (arcs (applyShaderBrush rnd (start # rest) colorStr size' opacity
                                        spacing scatter ps)).
            \<exists>q \<in> set (start # rest).
               \<bar>x - x_of q\<bar> \<le> scatter * size' \<and> \<bar>y - y_of q\<bar> \<le> scatter * size')
       \<and> (\<forall>(x, y, r) \<in> set (centres (arcs (apply3RSShader rnd (start # rest) colorStr size'
                                                 opacity spacing scatter ps))).
            \<exists>q \<in> set (start # rest).
               \<bar>x - x_of q\<bar> \<le> scatter * size' / 2 \<and> \<bar>y - y_of q\<bar> \<le> scatter * size' / 2)
       \<and> (j < length rest \<longrightarrow>
            shaderLoop rnd colorStr size' opacity spacing scatter ps start (take (Suc j) rest)
              = shaderLoop rnd colorStr size' opacity spacing scatter ps start (take j rest)
          \<or> (\<exists>jx jy. \<bar>jx\<bar> \<le> scatter * size' \<and> \<bar>jy\<bar> \<le> scatter * size'
               \<and> arcs (out (shaderLoop rnd colorStr size' opacity spacing scatter ps start
                                (take (Suc j) rest)))
                   = arcs (out (shaderLoop rnd colorStr size' opacity spacing scatter ps start
                                  (take j rest)))
                     @ [(x_of (rest ! j) + jx, y_of (rest ! j) + jy,
                         size' * (1 + (pressureOr1 (rest ! j) - 0.5) * ps) / 2)]))
       \<and> (j < length rest \<longrightarrow>
            tripleLoop rnd colorStr size' opacity spacing scatter ps start (take (Suc j) rest)
              = tripleLoop rnd colorStr size' opacity spacing scatter ps start (take j rest)
          \<or> (\<exists>jx jy sa sb. \<bar>jx\<bar> \<le> scatter * size' / 2 \<and> \<bar>jy\<bar> \<le> scatter * size' / 2
               \<and> arcs (out (tripleLoop rnd colorStr size' opacity spacing scatter ps start
                                (take (Suc j) rest)))
                   = arcs (out (tripleLoop rnd colorStr size' opacity spacing scatter ps start
                                  (take j rest)))
                     @ [(x_of (rest ! j) + jx, y_of (rest ! j) + jy,
                         size' * (1 + (pressureOr1 (rest ! j) - 0.5) * ps) / 2), sa, sb]))
       \<and> (scatter = 0 \<longrightarrow>
            (\<forall>(x, y, r) \<in> set (arcs (applyShaderBrush rnd (start # rest) colorStr size' opacity
                                        spacing scatter ps)).
               \<exists>q \<in> set (start # rest). x = x_of q \<and> y = y_of q)
          \<and> (\<forall>(x, y, r) \<in> set (centres (arcs (apply3RSShader rnd (start # rest) colorStr size'
                                                  opacity spacing scatter ps))).
               \<exists>q \<in> set (start # rest). x = x_of q \<and> y = y_of q))"
proof -
  let ?sh = "arcs (applyShaderBrush rnd (start # rest) colorStr size' opacity spacing scatter ps)"
  let ?tr = "centres (arcs (apply3RSShader rnd (start # rest) colorStr size' opacity spacing
                              scatter ps))"
  have g1: "\<forall>(x, y, r) \<in> set ?sh. \<exists>q \<in> set (start # rest).
               \<bar>x - x_of q\<bar> \<le> scatter * size' \<and> \<bar>y - y_of q\<bar> \<le> scatter * size'"
    using shader_arcs_near [OF assms, of colorStr opacity spacing ps start rest]
    by (simp add: applyShaderBrush_def)
  obtain cs where cs: "arcs (out (tripleLoop rnd colorStr size' opacity spacing scatter ps
                                    start rest)) = triples cs"
    and near: "\<forall>((x, y, r), a, b) \<in> set cs.
                  \<exists>q \<in> set (start # rest). \<bar>x - x_of q\<bar> \<le> scatter * size' / 2
                                          \<and> \<bar>y - y_of q\<bar> \<le> scatter * size' / 2"
    using triple_arcs_near [OF assms, of colorStr opacity spacing ps start rest] by blast
  have tr: "?tr = map fst cs"
    by (simp add: apply3RSShader_def cs centres_triples)
  have g2: "\<forall>(x, y, r) \<in> set ?tr. \<exists>q \<in> set (start # rest).
               \<bar>x - x_of q\<bar> \<le> scatter * size' / 2 \<and> \<bar>y - y_of q\<bar> \<le> scatter * size' / 2"
    unfolding tr using near by fastforce
  have s1: "j < length rest \<longrightarrow>
            shaderLoop rnd colorStr size' opacity spacing scatter ps start (take (Suc j) rest)
              = shaderLoop rnd colorStr size' opacity spacing scatter ps start (take j rest)
          \<or> (\<exists>jx jy. \<bar>jx\<bar> \<le> scatter * size' \<and> \<bar>jy\<bar> \<le> scatter * size'
               \<and> arcs (out (shaderLoop rnd colorStr size' opacity spacing scatter ps start
                                (take (Suc j) rest)))
                   = arcs (out (shaderLoop rnd colorStr size' opacity spacing scatter ps start
                                  (take j rest)))
                     @ [(x_of (rest ! j) + jx, y_of (rest ! j) + jy,
                         size' * (1 + (pressureOr1 (rest ! j) - 0.5) * ps) / 2)])"
    using shaderStep_jitter [OF assms, of colorStr opacity spacing ps
            "shaderLoop rnd colorStr size' opacity spacing scatter ps start (take j rest)"
            "rest ! j"]
    by (auto simp: shaderLoop_take_Suc)
  have s2: "j < length rest \<longrightarrow>
            tripleLoop rnd colorStr size' opacity spacing scatter ps start (take (Suc j) rest)
              = tripleLoop rnd colorStr size' opacity spacing scatter ps start (take j rest)
          \<or> (\<exists>jx jy sa sb. \<bar>jx\<bar> \<le> scatter * size' / 2 \<and> \<bar>jy\<bar> \<le> scatter * size' / 2
               \<and> arcs (out (tripleLoop rnd colorStr size' opacity spacing scatter ps start
                                (take (Suc j) rest)))
                   = arcs (out (tripleLoop rnd colorStr size' opacity spacing scatter ps start
                                  (take j rest)))
                     @ [(x_of (rest ! j) + jx, y_of (rest ! j) + jy,
                         size' * (1 + (pressureOr1 (rest ! j) - 0.5) * ps) / 2), sa, sb])"
    using tripleStep_jitter [OF assms, of colorStr opacity spacing ps
            "tripleLoop rnd colorStr size' opacity spacing scatter ps start (take j rest)"
            "rest ! j"]
    by (auto simp: tripleLoop_take_Suc)
  have z: "scatter = 0 \<longrightarrow>
            (\<forall>(x, y, r) \<in> set ?sh. \<exists>q \<in> set (start # rest). x = x_of q \<and> y = y_of q)
          \<and> (\<forall>(x, y, r) \<in> set ?tr. \<exists>q \<in> set (start # rest). x = x_of q \<and> y = y_of q)"
  proof
    assume z0: "scatter = 0"
    have "\<forall>(x, y, r) \<in> set ?sh. \<exists>q \<in> set (start # rest). x = x_of q \<and> y = y_of q"
      using g1 unfolding z0 by fastforce
    moreover have "\<forall>(x, y, r) \<in> set ?tr. \<exists>q \<in> set (start # rest). x = x_of q \<and> y = y_of q"
      using g2 unfolding z0 by fastforce
    ultimately show "(\<forall>(x, y, r) \<in> set ?sh. \<exists>q \<in> set (start # rest). x = x_of q \<and> y = y_of q)
          \<and> (\<forall>(x, y, r) \<in> set ?tr. \<exists>q \<in> set (start # rest). x = x_of q \<and> y = y_of q)"
      by blast
  qed
  from g1 g2 s1 s2 z show ?thesis by blast
qed


theorem jitter_bounds_witness:
  "arcs (applyShaderBrush (\<lambda>k. 3/4) twoPoints (Rgba (Some 121) (Some 85) (Some 61) 1)
           10 (4/5) (3/5) (1/10) (4/5)) = [(0, 0, 5), (21/2, 1/2, 7)]
 \<and> \<bar>21/2 - 10\<bar> \<le> (1/10) * (10::real)
 \<and> arcs (applyShaderBrush (\<lambda>k. 3/4) twoPoints (Rgba (Some 121) (Some 85) (Some 61) 1)
           10 (4/5) (3/5) 0 (4/5)) = [(0, 0, 5), (10, 0, 7)]"
proof -
  have r: "\<forall>k::nat. 0 \<le> (3/4::real) \<and> (3/4::real) < 1" by simp
  have b: "0 \<le> (1/10) * (10::real)" and b0: "0 \<le> 0 * (10::real)" by simp_all
  have a: "arcs (applyShaderBrush (\<lambda>k. 3/4) twoPoints (Rgba (Some 121) (Some 85) (Some 61) 1)
           10 (4/5) (3/5) (1/10) (4/5)) = [(0, 0, 5), (21/2, 1/2, 7)]"
    by (simp add: twoPoints_def applyShaderBrush_def shaderLoop_def shaderStep_def
          shaderInit_def Let_def gate_iff arcs_append arcs_drawDot pressureOr1_def)
  have a0: "arcs (applyShaderBrush (\<lambda>k. 3/4) twoPoints (Rgba (Some 121) (Some 85) (Some 61) 1)
           10 (4/5) (3/5) 0 (4/5)) = [(0, 0, 5), (10, 0, 7)]"
    by (simp add: twoPoints_def applyShaderBrush_def shaderLoop_def shaderStep_def
          shaderInit_def Let_def gate_iff arcs_append arcs_drawDot pressureOr1_def)
  show ?thesis
    using jitter_bounds [OF r b, where j = 0
            and start = "\<lparr>x_of = 0, y_of = 0, pressure_of = Some 1\<rparr>"
            and rest = "[\<lparr>x_of = 10, y_of = 0, pressure_of = Some 1\<rparr>]"
            and colorStr = "Rgba (Some 121) (Some 85) (Some 61) 1" and opacity = "4/5"
            and spacing = "3/5" and ps = "4/5"]
          jitter_bounds [OF r b0, where j = 0
            and start = "\<lparr>x_of = 0, y_of = 0, pressure_of = Some 1\<rparr>"
            and rest = "[\<lparr>x_of = 10, y_of = 0, pressure_of = Some 1\<rparr>]"
            and colorStr = "Rgba (Some 121) (Some 85) (Some 61) 1" and opacity = "4/5"
            and spacing = "3/5" and ps = "4/5"]
          a a0
    by (simp add: twoPoints_def)
qed

text \<open>
  The success path, for comparison with the exception path: no brush saves or restores by
  itself, so the \<open>ctx.restore()\<close> at the end of the \<open>try\<close> block returns the surface to
  the transient state that \<open>ctx.save()\<close> recorded.
\<close>

lemma run_saved:
  assumes "Save \<notin> set cs" and "Restore \<notin> set cs"
  shows "saved (run cs c) = saved c"
  using assms
proof (induction cs arbitrary: c)
  case Nil
  show ?case by (simp add: run_Nil)
next
  case (Cons a cs)
  then have "saved (exec a c) = saved c" by (cases a) simp_all
  with Cons show ?case by (simp add: run_Cons)
qed

lemma run_bracket:
  assumes "Save \<notin> set body" and "Restore \<notin> set body"
  shows "state (run ([Save, SetGlobalCompositeOperation v] @ body @ [Restore]) c) = state c
       \<and> saved (run ([Save, SetGlobalCompositeOperation v] @ body @ [Restore]) c) = saved c"
proof -
  let ?c1 = "exec (SetGlobalCompositeOperation v) (exec Save c)"
  have "saved (run body ?c1) = state c # saved c"
    using run_saved [OF assms, of ?c1] by simp
  then show ?thesis by (simp add: run_append run_Cons run_Nil)
qed

lemma drawDot_plain: "Save \<notin> set (drawDot x y size' color alpha) \<and> Restore \<notin> set (drawDot x y size' color alpha)"
  by (simp add: drawDot_def)

lemma drawTripleDot_plain:
  "Save \<notin> set (drawTripleDot r x y size' color alpha)
 \<and> Restore \<notin> set (drawTripleDot r x y size' color alpha)"
  by (simp add: drawTripleDot_def Let_def drawDot_plain)

lemma shaderLoop_plain:
  "Save \<notin> set (out (shaderLoop rnd colorStr size' opacity spacing scatter ps p0 pts))
 \<and> Restore \<notin> set (out (shaderLoop rnd colorStr size' opacity spacing scatter ps p0 pts))"
proof (induction pts rule: rev_induct)
  case Nil
  show ?case by (simp add: shaderLoop_Nil shaderInit_def drawDot_plain)
next
  case (snoc pt pts)
  then show ?case by (simp add: shaderLoop_snoc shaderStep_def Let_def drawDot_plain)
qed

lemma tripleLoop_plain:
  "Save \<notin> set (out (tripleLoop rnd colorStr size' opacity spacing scatter ps p0 pts))
 \<and> Restore \<notin> set (out (tripleLoop rnd colorStr size' opacity spacing scatter ps p0 pts))"
proof (induction pts rule: rev_induct)
  case Nil
  show ?case by (simp add: tripleLoop_Nil tripleInit_def drawTripleDot_plain)
next
  case (snoc pt pts)
  then show ?case by (simp add: tripleLoop_snoc tripleStep_def Let_def drawTripleDot_plain)
qed

lemma taperLoop_plain:
  "Save \<notin> set (taperLoop points size' ps totalLen cur js)
 \<and> Restore \<notin> set (taperLoop points size' ps totalLen cur js)"
  by (induction js arbitrary: cur) (simp_all add: Let_def)

lemma dispatch_plain:
  "Save \<notin> set (dispatch cur rnd pts colorStr) \<and> Restore \<notin> set (dispatch cur rnd pts colorStr)"
  by (auto simp: dispatch_def applySpecializedBrush_def applyLinerBrush_def
        applyShaderBrush_def apply3RSShader_def applyOmbreLipOutline_def ombreSegment_def
        applyMicrobladeNatural_def applyDefaultBrush_def Let_def shaderLoop_plain
        tripleLoop_plain taperLoop_plain split: list.splits if_splits)

lemma stroke_success_restores:
  assumes "applyBrushStroke this rnd (Some c) points color = (True, Some c')"
  shows "state c' = state c \<and> saved c' = saved c"
proof -
  from assms obtain pts cur col where
    c': "c' = run ([Save, SetGlobalCompositeOperation ''source-over'']
                   @ dispatch cur rnd pts (toColorStr col) @ [Restore]) c"
    by (auto simp: applyBrushStroke_def Let_def split: option.splits if_splits)
  show ?thesis
    unfolding c' using dispatch_plain by (intro run_bracket) auto
qed

end
